theory Spec2Isabelle
  imports Complex_Main "HOL-Library.Word"
begin

unbundle bit_operations_syntax

section \<open>JavaScript values used by \<open>mp4mux.ts\<close>\<close>

text \<open>
  A \<open>Uint8Array\<close> is a list of 8-bit words; storing a number into it keeps the low eight
  bits, which is what \<open>of_nat\<close> and \<open>of_int\<close> into \<open>8 word\<close> do.
\<close>

type_synonym byte = "8 word"
type_synonym bytes = "byte list"

text \<open>
  The errors the module can raise. Every \<open>throw new Error(...)\<close> of the source is one
  constructor; \<open>TypeError\<close> is the runtime error of reading a property of \<open>undefined\<close>.
\<close>

datatype error =
    BadTagName
  | BadTagLength
  | UnsupportedAudioCodec
  | UnsupportedVideoCodec
  | UnknownPacketType
  | NotSupportedTrackType
  | UnsupportedCodec
  | TypeError

definition ebind :: "error + 'a \<Rightarrow> ('a \<Rightarrow> error + 'b) \<Rightarrow> error + 'b" where
  "ebind r f = (case r of Inl e \<Rightarrow> Inl e | Inr x \<Rightarrow> f x)"

subsection \<open>Numbers\<close>

text \<open>
  A JavaScript number is an IEEE-754 binary64 value. The finite ones are rationals; the two
  infinities are one value \<open>Infinity\<close> and the two zeros one value \<open>Num 0\<close>, because every
  number the muxer computes by division or multiplication ends in a conversion to a 32-bit
  integer, which does not see the sign of an infinity or of a zero. \<open>NaN\<close> also stands for
  \<open>undefined\<close> where the source reads an absent numeric property: \<open>undefined\<close> is \<open>NaN\<close> in
  arithmetic and 0 in a bit operation, as \<open>NaN\<close> is.
\<close>

datatype number = Num rat | Infinity | NaN

fun bit_length :: "nat \<Rightarrow> nat" where
  "bit_length n = (if n = 0 then 0 else Suc (bit_length (n div 2)))"

declare bit_length.simps [simp del]

definition floor_log2 :: "rat \<Rightarrow> int" where
  \<comment> \<open>for \<open>0 < x\<close>: the \<open>e\<close> with \<open>2 ^ e \<le> x < 2 ^ (e + 1)\<close>\<close>
  "floor_log2 x =
     (if 1 \<le> x then int (bit_length (nat \<lfloor>x\<rfloor>)) - 1
      else - int (bit_length (nat (\<lceil>1 / x\<rceil> - 1))))"

definition pow2 :: "int \<Rightarrow> rat" where
  "pow2 e = (if 0 \<le> e then 2 ^ nat e else 1 / 2 ^ nat (- e))"

definition round_half_even :: "rat \<Rightarrow> int" where
  "round_half_even x =
     (let f = \<lfloor>x\<rfloor>; d = x - of_int f
      in if d < 1 / 2 then f else if 1 / 2 < d then f + 1 else if even f then f else f + 1)"

definition round_double :: "rat \<Rightarrow> number" where
  \<comment> \<open>the binary64 value of an exact result: 53 significant bits, ties to even,
      exponents from -1022 (gradual underflow below), overflow to \<open>Infinity\<close>\<close>
  "round_double x =
     (if x = 0 then Num 0
      else let e = max (floor_log2 \<bar>x\<bar>) (- 1022);
               u = pow2 (e - 52);
               y = of_int (round_half_even (x / u)) * u
           in if 2 ^ 1024 \<le> \<bar>y\<bar> then Infinity else Num y)"

fun js_div :: "number \<Rightarrow> number \<Rightarrow> number" where
  "js_div NaN _ = NaN"
| "js_div _ NaN = NaN"
| "js_div Infinity Infinity = NaN"
| "js_div Infinity (Num b) = Infinity"
| "js_div (Num a) Infinity = Num 0"
| "js_div (Num a) (Num b) =
     (if b = 0 then (if a = 0 then NaN else Infinity) else round_double (a / b))"

fun js_mul :: "number \<Rightarrow> number \<Rightarrow> number" where
  "js_mul NaN _ = NaN"
| "js_mul _ NaN = NaN"
| "js_mul Infinity Infinity = Infinity"
| "js_mul Infinity (Num b) = (if b = 0 then NaN else Infinity)"
| "js_mul (Num a) Infinity = (if a = 0 then NaN else Infinity)"
| "js_mul (Num a) (Num b) = round_double (a * b)"

definition wrap32 :: "int \<Rightarrow> int" where
  "wrap32 k = (k + 2 ^ 31) mod 2 ^ 32 - 2 ^ 31"

fun ToInt32 :: "number \<Rightarrow> int" where
  \<comment> \<open>\<open>x | 0\<close>, and what \<open>>>\<close> and \<open>&\<close> do to their operand first\<close>
  "ToInt32 (Num x) = wrap32 (if 0 \<le> x then \<lfloor>x\<rfloor> else \<lceil>x\<rceil>)"
| "ToInt32 Infinity = 0"
| "ToInt32 NaN = 0"

definition js_or :: "number \<Rightarrow> number \<Rightarrow> number" where
  \<comment> \<open>\<open>a || b\<close> on numbers: 0 and NaN are falsy\<close>
  "js_or a b = (if a = Num 0 \<or> a = NaN then b else a)"

section \<open>Box encoder\<close>

fun hexdigit :: "char \<Rightarrow> nat option" where
  "hexdigit c =
     (let n = of_char c :: nat
      in if 48 \<le> n \<and> n \<le> 57 then Some (n - 48)
         else if 65 \<le> n \<and> n \<le> 70 then Some (n - 55)
         else if 97 \<le> n \<and> n \<le> 102 then Some (n - 87)
         else None)"

fun hex :: "string \<Rightarrow> bytes" where
  \<comment> \<open>\<open>parseInt\<close> of each pair of characters in base 16; the source only applies it to
      literals of hexadecimal digits\<close>
  "hex (a # b # s) =
     (case hexdigit a of None \<Rightarrow> 0
      | Some x \<Rightarrow> (case hexdigit b of None \<Rightarrow> of_nat x | Some y \<Rightarrow> of_nat (16 * x + y))) # hex s"
| "hex _ = []"

text \<open>
  The argument of \<open>flatten\<close>: a byte buffer, a number, a string, or an array of those.
\<close>

datatype flat = U8 bytes | N int | S string | A "flat list"

fun flatten :: "flat \<Rightarrow> bytes" where
  "flatten (U8 b) = b"
| "flatten (N n) = [of_int n]"
| "flatten (S s) = map (\<lambda>c. of_nat (of_char c)) s"
| "flatten (A xs) = concat (map flatten xs)"

definition encodeInt32 :: "int \<Rightarrow> bytes" where
  "encodeInt32 n = [of_int (n div 2 ^ 24), of_int (n div 2 ^ 16), of_int (n div 2 ^ 8), of_int n]"

definition encodeUint16 :: "int \<Rightarrow> bytes" where
  "encodeUint16 n = [of_int (n div 2 ^ 8), of_int n]"

definition encodeFloat :: "number \<Rightarrow> bytes" where
  "encodeFloat n = encodeInt32 (ToInt32 (js_mul n (Num 65536)))"

definition encodeFloat16 :: "number \<Rightarrow> bytes" where
  "encodeFloat16 n = encodeUint16 (ToInt32 (js_mul n (Num 256)))"

definition charCodeAt :: "string \<Rightarrow> nat \<Rightarrow> nat" where
  \<comment> \<open>as the operand of \<open>&\<close>: past the end the source gets NaN, which is 0 there\<close>
  "charCodeAt s i = (if i < length s then of_char (s ! i) else 0)"

definition encodeLang :: "string \<Rightarrow> bytes" where
  "encodeLang s =
     encodeUint16 (int ((charCodeAt s 0 mod 32) * 1024 + (charCodeAt s 1 mod 32) * 32
                        + charCodeAt s 2 mod 32))"

definition tag :: "string \<Rightarrow> flat \<Rightarrow> error + bytes" where
  "tag name data =
     (if length name \<noteq> 4 then Inl BadTagName
      else let d = flatten data; len = 8 + length d
           in if len > 0x7FFFFFFF then Inl BadTagLength
              else Inr (flatten (A [U8 (encodeInt32 (int len)), S name, U8 d])))"

definition be32 :: "bytes \<Rightarrow> nat" where
  \<comment> \<open>the big-endian unsigned integer held by a byte sequence\<close>
  "be32 bs = foldl (\<lambda>acc b. acc * 256 + unat b) 0 bs"


section \<open>Packet parsers\<close>

definition byte_num :: "bytes \<Rightarrow> nat \<Rightarrow> nat" where
  \<comment> \<open>\<open>data[i]\<close> as the operand of \<open>>>\<close> or \<open>&\<close>: past the end it is \<open>undefined\<close>, which is 0 there\<close>
  "byte_num data i = (if i < length data then unat (data ! i) else 0)"

definition byte_at :: "bytes \<Rightarrow> nat \<Rightarrow> nat option" where
  \<comment> \<open>\<open>data[i]\<close> stored as it is: \<open>None\<close> is \<open>undefined\<close>\<close>
  "byte_at data i = (if i < length data then Some (unat (data ! i)) else None)"

definition index_opt :: "'a option list \<Rightarrow> nat \<Rightarrow> 'a option" where
  \<comment> \<open>reading a table of names: \<open>None\<close> is \<open>null\<close> or \<open>undefined\<close>\<close>
  "index_opt xs i = (if i < length xs then xs ! i else None)"

definition SOUNDRATES :: "nat list" where
  "SOUNDRATES = [5500, 11025, 22050, 44100]"

definition SOUNDFORMATS :: "string option list" where
  "SOUNDFORMATS = [Some ''PCM'', Some ''ADPCM'', Some ''MP3'', Some ''PCM le'',
     Some ''Nellymouser16'', Some ''Nellymouser8'', Some ''Nellymouser'', Some ''G.711 A-law'',
     Some ''G.711 mu-law'', None, Some ''AAC'', Some ''Speex'', Some ''MP3 8khz'']"

definition MP3_SOUND_CODEC_ID :: nat where "MP3_SOUND_CODEC_ID = 2"
definition AAC_SOUND_CODEC_ID :: nat where "AAC_SOUND_CODEC_ID = 10"

text \<open>
  An absent property of a packet is \<open>None\<close>: \<open>samples\<close> and \<open>packetType\<close> are only set for
  some codecs, and \<open>packetType\<close> is \<open>undefined\<close> as well when the packet has no second byte.
\<close>

record AudioPacket =
  a_codecDescription :: "string option"
  a_codecId :: nat
  a_data :: bytes
  a_rate :: nat
  a_size :: nat
  a_channels :: nat
  a_samples :: "nat option"
  a_packetType :: "nat option"

definition parseAudiodata :: "bytes \<Rightarrow> AudioPacket" where
  "parseAudiodata data =
     (let b = byte_num data 0;
          result = \<lparr> a_codecDescription = index_opt SOUNDFORMATS (drop_bit 4 b),
                     a_codecId = drop_bit 4 b,
                     a_data = [],
                     a_rate = SOUNDRATES ! (drop_bit 2 b AND 3),
                     a_size = (if b AND 2 \<noteq> 0 then 16 else 8),
                     a_channels = (if b AND 1 \<noteq> 0 then 2 else 1),
                     a_samples = None,
                     a_packetType = None \<rparr>
      in if a_codecId result = AAC_SOUND_CODEC_ID then
           result \<lparr> a_packetType := byte_at data 1, a_samples := Some 1024, a_data := drop 2 data \<rparr>
         else if a_codecId result = MP3_SOUND_CODEC_ID then
           (let version = drop_bit 3 (byte_num data 2) AND 3;
                layer = drop_bit 1 (byte_num data 2) AND 3
            in result \<lparr> a_samples := Some (if layer = 1 then (if version = 3 then 1152 else 576)
                                             else (if layer = 3 then 384 else 1152)),
                        a_data := drop 1 data \<rparr>)
         else result \<lparr> a_data := drop 1 data \<rparr>)"

definition VIDEOCODECS :: "string option list" where
  "VIDEOCODECS = [None, Some ''JPEG'', Some ''Sorenson'', Some ''Screen'', Some ''VP6'',
     Some ''VP6 alpha'', Some ''Screen2'', Some ''AVC'']"

definition VP6_VIDEO_CODEC_ID :: nat where "VP6_VIDEO_CODEC_ID = 4"
definition AVC_VIDEO_CODEC_ID :: nat where "AVC_VIDEO_CODEC_ID = 7"

record VideoPacket =
  v_frameType :: nat
  v_codecId :: nat
  v_codecDescription :: "string option"
  v_data :: bytes
  v_packetType :: "nat option"
  v_compositionTime :: "int option"
  v_horizontalOffset :: "nat option"
  v_verticalOffset :: "nat option"

definition compositionTime_of :: "nat \<Rightarrow> nat \<Rightarrow> nat \<Rightarrow> int" where
  \<comment> \<open>\<open>((x << 24) | (y << 16) | (z << 8)) >> 8\<close> on 32-bit integers\<close>
  "compositionTime_of x y z =
     sint (signed_drop_bit 8
       (push_bit 24 (of_nat x) OR push_bit 16 (of_nat y) OR push_bit 8 (of_nat z) :: 32 word))"

definition parseVideodata :: "bytes \<Rightarrow> VideoPacket" where
  "parseVideodata data =
     (let frameType = drop_bit 4 (byte_num data 0);
          codecId = byte_num data 0 AND 15;
          result = \<lparr> v_frameType = frameType,
                     v_codecId = codecId,
                     v_codecDescription = index_opt VIDEOCODECS codecId,
                     v_data = [],
                     v_packetType = None,
                     v_compositionTime = None,
                     v_horizontalOffset = None,
                     v_verticalOffset = None \<rparr>
      in if codecId = AVC_VIDEO_CODEC_ID then
           result \<lparr> v_packetType := byte_at data 1,
                    v_compositionTime :=
                      Some (compositionTime_of (byte_num data 2) (byte_num data 3) (byte_num data 4)),
                    v_data := drop 5 data \<rparr>
         else if codecId = VP6_VIDEO_CODEC_ID then
           result \<lparr> v_horizontalOffset := Some (drop_bit 4 (byte_num data 1) AND 15),
                    v_verticalOffset := Some (byte_num data 1 AND 15),
                    v_data := drop 2 data \<rparr>
         else result \<lparr> v_data := drop 1 data \<rparr>)"

section \<open>Tracks and the muxer\<close>

definition AUDIO_PACKET :: nat where "AUDIO_PACKET = 8"
definition VIDEO_PACKET :: nat where "VIDEO_PACKET = 9"
definition MAX_PACKETS_IN_CHUNK :: nat where "MAX_PACKETS_IN_CHUNK = 5"

text \<open>
  A cached packet is an audio or a video packet. The fragment builder reads a packet through
  the properties of the kind its track has, whatever the packet is; a property the packet
  does not have reads as \<open>undefined\<close>.
\<close>

datatype packet = AudioP AudioPacket | VideoP VideoPacket

record CachedPacket =
  packet :: packet
  timestamp :: number

fun packet_data :: "packet \<Rightarrow> bytes" where
  "packet_data (AudioP a) = a_data a"
| "packet_data (VideoP v) = v_data v"

fun packet_samples :: "packet \<Rightarrow> number" where
  "packet_samples (AudioP a) = (case a_samples a of Some n \<Rightarrow> Num (of_nat n) | None \<Rightarrow> NaN)"
| "packet_samples (VideoP v) = NaN"

fun packet_frameType :: "packet \<Rightarrow> nat option" where
  "packet_frameType (AudioP a) = None"
| "packet_frameType (VideoP v) = Some (v_frameType v)"

fun packet_compositionTime :: "packet \<Rightarrow> int" where
  \<comment> \<open>as the argument of \<open>encodeInt32\<close>, where \<open>undefined\<close> is 0\<close>
  "packet_compositionTime (AudioP a) = 0"
| "packet_compositionTime (VideoP v) = (case v_compositionTime v of Some t \<Rightarrow> t | None \<Rightarrow> 0)"

text \<open>
  The optional numeric fields of a track are \<open>NaN\<close> when the constructor does not set them.
  \<open>cachedDuration\<close> is a sum of 32-bit integers, kept as an exact integer.
\<close>

record MP4Track =
  language :: string
  ttype :: string
  timescale :: number
  cache :: "CachedPacket list"
  cachedDuration :: int
  samplerate :: number
  channels :: number
  framerate :: number
  width :: number
  height :: number

text \<open>
  The stream metadata the constructor reads. A codec id is absent, a number (the legacy
  fields) or a string (the sample type of a track). The numeric fields hold the value after
  the conversion to a number, \<open>NaN\<close> when the property is absent.
\<close>

datatype jsid = Undefined | IdNum int | IdStr string

fun truthy :: "jsid \<Rightarrow> bool" where
  "truthy Undefined = False"
| "truthy (IdNum n) = (n \<noteq> 0)"
| "truthy (IdStr s) = (s \<noteq> [])"

record trackinfo =
  ti_language :: string
  ti_sampletype :: string
  ti_timescale :: number

record metadata =
  md_trackinfo :: "trackinfo list option"
  audiocodecid :: jsid
  videocodecid :: jsid
  audiosamplerate :: number
  audiochannels :: number
  videoframerate :: number
  md_framerate :: number
  md_width :: number
  md_height :: number

text \<open>
  The muxer. \<open>ondata\<close> is the output port: the model takes a sink that collects the buffers
  it is given, and the field holds them in the order of emission.
\<close>

record MP4Mux =
  mux_metadata :: metadata
  tracks :: "MP4Track list"
  audioTrackId :: int
  videoTrackId :: int
  waitForAdditionalData :: bool
  filePos :: nat
  cachedPackets :: nat
  state :: nat
  chunkIndex :: nat
  ondata :: "bytes list"

definition new_track :: "string \<Rightarrow> string \<Rightarrow> number \<Rightarrow> MP4Track" where
  "new_track l t ts =
     \<lparr> language = l, ttype = t, timescale = ts, cache = [], cachedDuration = 0,
       samplerate = NaN, channels = NaN, framerate = NaN, width = NaN, height = NaN \<rparr>"

definition trackinfo_step ::
  "metadata \<Rightarrow> MP4Track list \<times> int \<times> int \<Rightarrow> trackinfo \<Rightarrow> MP4Track list \<times> int \<times> int" where
  \<comment> \<open>one turn of the constructor's loop; the index \<open>i\<close> is the number of tracks pushed so far\<close>
  "trackinfo_step md acc info =
     (case acc of (ts, aid, vid) \<Rightarrow>
        let i = int (length ts);
            track = new_track (ti_language info) (ti_sampletype info) (ti_timescale info)
        in if IdStr (ti_sampletype info) = audiocodecid md then
             (ts @ [track \<lparr> samplerate := audiosamplerate md, channels := audiochannels md \<rparr>],
              i, vid)
           else if IdStr (ti_sampletype info) = videocodecid md then
             (ts @ [track \<lparr> framerate := videoframerate md, width := md_width md,
                             height := md_height md \<rparr>], aid, i)
           else (ts @ [track], aid, vid))"

definition new_mux :: "metadata \<Rightarrow> MP4Track list \<Rightarrow> int \<Rightarrow> int \<Rightarrow> bool \<Rightarrow> MP4Mux" where
  "new_mux md ts aid vid w =
     \<lparr> mux_metadata = md, tracks = ts, audioTrackId = aid, videoTrackId = vid,
       waitForAdditionalData = w, filePos = 0, cachedPackets = 0, state = 0, chunkIndex = 0,
       ondata = [] \<rparr>"

definition MP4Mux_new :: "metadata \<Rightarrow> error + MP4Mux" where
  "MP4Mux_new md =
     (case md_trackinfo md of
        Some infos \<Rightarrow>
          (case foldl (trackinfo_step md) ([], - 1, - 1) infos of
             (ts, aid, vid) \<Rightarrow> Inr (new_mux md ts aid vid True))
      | None \<Rightarrow>
          ebind (if truthy (audiocodecid md) then
                   (if audiocodecid md \<noteq> IdNum 2 then Inl UnsupportedAudioCodec
                    else Inr ([(new_track ''unk'' ''mp3'' (js_or (audiosamplerate md) (Num 44100)))
                                \<lparr> samplerate := js_or (audiosamplerate md) (Num 44100),
                                  channels := js_or (audiochannels md) (Num 2) \<rparr>], 0))
                 else Inr ([], - 1)) (\<lambda>(ts, aid).
          ebind (if truthy (videocodecid md) then
                   (if videocodecid md \<noteq> IdNum 4 then Inl UnsupportedVideoCodec
                    else Inr (ts @ [(new_track ''unk'' ''vp6f'' (Num 10000))
                                \<lparr> framerate := md_framerate md, width := md_width md,
                                  height := md_height md \<rparr>], int (length ts)))
                 else Inr (ts, - 1)) (\<lambda>(ts', vid).
          Inr (new_mux md ts' aid vid False))))"


section \<open>Header generation\<close>

definition codecInfo_of :: "MP4Track \<Rightarrow> error + bytes \<times> bool" where
  \<comment> \<open>the \<open>switch (trackInfo.type)\<close> of \<open>generateHeader\<close>: the sample description and \<open>isAudio\<close>.
      \<open>trackInfo.cache[0].packet\<close> is a \<open>TypeError\<close> when the cache is empty.\<close>
  "codecInfo_of trackInfo =
     (if ttype trackInfo = ''mp4a'' then
        (case cache trackInfo of
           [] \<Rightarrow> Inl TypeError
         | c # _ \<Rightarrow>
             let audioSpecificConfig = packet_data (packet c);
                 n = int (length audioSpecificConfig)
             in ebind (tag ''esds'' (A [U8 (hex ''0000000003808080''), N (32 + n),
                         U8 (hex ''00020004808080''), N (18 + n),
                         U8 (hex ''40150000000000FA000000000005808080''), N n,
                         U8 audioSpecificConfig, U8 (hex ''068080800102'')])) (\<lambda>esds.
                ebind (tag ''mp4a'' (A [U8 (hex ''00000000000000010000000000000000''),
                         U8 (encodeUint16 (ToInt32 (channels trackInfo))), U8 (hex ''00100000''),
                         U8 (encodeInt32 (ToInt32 (samplerate trackInfo))), U8 (hex ''0000''),
                         U8 esds])) (\<lambda>codecInfo.
                Inr (codecInfo, True))))
      else if ttype trackInfo = ''mp3'' then
        ebind (tag ''.mp3'' (A [U8 (hex ''00000000000000010000000000000000''),
                 U8 (encodeUint16 (ToInt32 (channels trackInfo))), U8 (hex ''00100000''),
                 U8 (encodeInt32 (ToInt32 (samplerate trackInfo))), U8 (hex ''0000'')])) (\<lambda>codecInfo.
        Inr (codecInfo, True))
      else if ttype trackInfo = ''avc1'' then
        (case cache trackInfo of
           [] \<Rightarrow> Inl TypeError
         | c # _ \<Rightarrow>
             let avcC0 = packet_data (packet c);
                 avcC = (if 5 < length avcC0 then avcC0[5 := avcC0 ! 5 OR 0xE0] else avcC0)
             in ebind (tag ''avcC'' (U8 avcC)) (\<lambda>avcCbox.
                ebind (tag ''avc1'' (A [U8 (hex ''000000000000000100000000000000000000000000000000''),
                         U8 (encodeUint16 (ToInt32 (width trackInfo))),
                         U8 (encodeUint16 (ToInt32 (height trackInfo))),
                         U8 (hex ''004800000048000000000000000100000000000000000000000000000000000000000000000000000000000000000018FFFF''),
                         U8 avcCbox])) (\<lambda>codecInfo.
                Inr (codecInfo, False))))
      else if ttype trackInfo = ''vp6f'' then
        ebind (tag ''glbl'' (A [U8 (hex ''00'')])) (\<lambda>glbl.
        ebind (tag ''VP6F'' (A [U8 (hex ''000000000000000100000000000000000000000000000000''),
                 U8 (encodeUint16 (ToInt32 (width trackInfo))),
                 U8 (encodeUint16 (ToInt32 (height trackInfo))),
                 U8 (hex ''004800000048000000000000000100000000000000000000000000000000000000000000000000000000000000000018FFFF''),
                 U8 glbl])) (\<lambda>codecInfo.
        Inr (codecInfo, False)))
      else Inl NotSupportedTrackType)"

definition trak_of :: "nat \<Rightarrow> MP4Track \<Rightarrow> bytes \<Rightarrow> bool \<Rightarrow> error + bytes" where
  \<comment> \<open>the track box of track \<open>i\<close>; the boxes are built innermost first, as the nested calls are\<close>
  "trak_of i trackInfo codecInfo isAudio =
     ebind (tag ''stsd'' (A [U8 (hex ''0000000000000001''), U8 codecInfo])) (\<lambda>stsd.
     ebind (tag ''stbl'' (A [U8 stsd,
              U8 (hex ''0000001073747473000000000000000000000010737473630000000000000000000000147374737A000000000000000000000000000000107374636F0000000000000000'')])) (\<lambda>stbl.
     ebind (tag ''minf'' (A [U8 (if isAudio
                then hex ''00000010736D686400000000000000000000002464696E660000001C6472656600000000000000010000000C75726C2000000001''
                else hex ''00000014766D68640000000100000000000000000000002464696E660000001C6472656600000000000000010000000C75726C2000000001''),
              U8 stbl])) (\<lambda>minf.
     ebind (tag ''mdia'' (A [U8 (hex ''000000206D6468640000000000000000000000000000''),
              U8 (encodeUint16 (ToInt32 (timescale trackInfo))), U8 (hex ''FFFFFFFF''),
              U8 (encodeLang (language trackInfo)),
              U8 (if isAudio
                then hex ''00000000002D68646C720000000000000000736F756E000000000000000000000000536F756E6448616E646C657200''
                else hex ''00000000002D68646C72000000000000000076696465000000000000000000000000566964656F48616E646C657200''),
              U8 minf])) (\<lambda>mdia.
     tag ''trak'' (A [U8 (hex ''0000005C746B68640000000F0000000000000000''),
              U8 (encodeInt32 (int (i + 1))), U8 (hex ''00000000FFFFFFFF00000000000000000000''),
              U8 (encodeUint16 (int i)),
              U8 (encodeFloat16 (if isAudio then Num 1 else Num 0)),
              U8 (hex ''0000000100000000000000000000000000000001000000000000000000000000000040000000''),
              U8 (encodeFloat (if isAudio then Num 0 else width trackInfo)),
              U8 (encodeFloat (if isAudio then Num 0 else height trackInfo)),
              U8 mdia])))))"

fun header_traks :: "nat \<Rightarrow> MP4Track list \<Rightarrow> error + bytes list" where
  \<comment> \<open>the loop over the tracks, from track \<open>i\<close> on\<close>
  "header_traks i [] = Inr []"
| "header_traks i (trackInfo # rest) =
     ebind (codecInfo_of trackInfo) (\<lambda>(codecInfo, isAudio).
     ebind (trak_of i trackInfo codecInfo isAudio) (\<lambda>trak.
     ebind (header_traks (Suc i) rest) (\<lambda>traks.
     Inr (trak # traks))))"

definition ftype :: bytes where
  "ftype = hex ''000000206674797069736F6D0000020069736F6D69736F32617663316D703431''"

definition mvexAndUdat :: bytes where
  "mvexAndUdat = hex ''000000486D7665780000002074726578000000000000000100000001000000000000000000000000000000207472657800000000000000020000000100000000000000000000000000000062756474610000005A6D657461000000000000002168646C7200000000000000006D6469726170706C0000000000000000000000002D696C737400000025A9746F6F0000001D6461746100000001000000004C61766635342E36332E313034''"

definition moovHeader :: "nat \<Rightarrow> flat" where
  "moovHeader ntracks =
     A [U8 (hex ''0000006C6D766864000000000000000000000000000003E80000000000010000010000000000000000000000000100000000000000000000000000000001000000000000000000000000000040000000000000000000000000000000000000000000000000000000''),
        U8 (encodeInt32 (int ntracks))]"

definition generateHeader :: "MP4Mux \<Rightarrow> error + MP4Mux" where
  "generateHeader m =
     ebind (header_traks 0 (tracks m)) (\<lambda>traks.
     ebind (tag ''moov'' (A [moovHeader (length (tracks m)), A (map U8 traks), U8 mvexAndUdat]))
       (\<lambda>moov.
     let header = flatten (A [U8 ftype, U8 moov])
     in Inr (m \<lparr> tracks := map (\<lambda>t. t \<lparr> cache := [] \<rparr>) (tracks m),
                 cachedPackets := 0,
                 ondata := ondata m @ [header],
                 filePos := filePos m + length header,
                 state := 1 \<rparr>)))"

section \<open>Fragment generation\<close>

record trafPart =
  tfhd :: bytes
  trunHead :: bytes
  trunTail :: bytes

definition audioFrameDuration :: "MP4Track \<Rightarrow> packet \<Rightarrow> int" where
  \<comment> \<open>\<open>(audioPacket.samples / trackInfo.samplerate * trackInfo.timescale) | 0\<close>\<close>
  "audioFrameDuration trackInfo p =
     ToInt32 (js_mul (js_div (packet_samples p) (samplerate trackInfo)) (timescale trackInfo))"

definition videoFrameDuration :: "MP4Track \<Rightarrow> int" where
  \<comment> \<open>\<open>(trackInfo.timescale / trackInfo.framerate) | 0\<close>\<close>
  "videoFrameDuration trackInfo = ToInt32 (js_div (timescale trackInfo) (framerate trackInfo))"

definition totalDuration :: "MP4Track \<Rightarrow> int" where
  \<comment> \<open>what the fragment adds to \<open>cachedDuration\<close>, for a track of a supported type\<close>
  "totalDuration trackInfo =
     (if ttype trackInfo = ''mp4a'' \<or> ttype trackInfo = ''mp3''
      then sum_list (map (\<lambda>c. audioFrameDuration trackInfo (packet c)) (cache trackInfo))
      else int (length (cache trackInfo)) * videoFrameDuration trackInfo)"

definition tfdt_of :: "MP4Track \<Rightarrow> error + bytes" where
  "tfdt_of trackInfo =
     tag ''tfdt'' (A [U8 (hex ''00000000''), U8 (encodeInt32 (cachedDuration trackInfo))])"

definition chunk_track :: "nat \<Rightarrow> MP4Track \<Rightarrow> error + bytes \<times> trafPart \<times> bytes \<times> nat" where
  \<comment> \<open>the body of the first loop of \<open>_chunk\<close> for track \<open>i\<close>, whose cache is not empty: the
      \<open>tfdt\<close> box, the parts of the track fragment, the sample data and what the track adds to
      \<open>moofLength\<close>. The inner loops over the cache are maps. The loop skips a track with an
      empty cache, so \<open>cache[0]\<close> exists where the body reads it.\<close>
  "chunk_track i trackInfo =
     ebind (tfdt_of trackInfo) (\<lambda>tfdt.
     if ttype trackInfo = ''mp4a'' \<or> ttype trackInfo = ''mp3'' then
       (let trun1head = flatten (A [U8 (hex ''00000305''),
                                    U8 (encodeInt32 (int (length (cache trackInfo))))]);
            trun1tail = flatten (A (U8 (hex ''02000000'') #
                          concat (map (\<lambda>c. [U8 (encodeInt32 (audioFrameDuration trackInfo (packet c))),
                                             U8 (encodeInt32 (int (length (packet_data (packet c)))))])
                                      (cache trackInfo))));
            tdat1 = flatten (A (map (\<lambda>c. U8 (packet_data (packet c))) (cache trackInfo)))
        in ebind (tag ''tfhd'' (A [U8 (hex ''00020038''), U8 (encodeInt32 (int (i + 1))),
                                   U8 (hex ''000004000000001A02000000'')])) (\<lambda>tfhd1.
           Inr (tfdt, \<lparr> tfhd = tfhd1, trunHead = trun1head, trunTail = trun1tail \<rparr>, tdat1,
                8 + length tfhd1 + 8 + length trun1head + 16 + 4 + length trun1tail)))
     else if ttype trackInfo = ''avc1'' \<or> ttype trackInfo = ''vp6f'' then
       (let firstFrameFlags = (case cache trackInfo of
                                 [] \<Rightarrow> []
                               | c # _ \<Rightarrow> if packet_frameType (packet c) \<noteq> Some 1
                                          then hex ''01010000'' else hex ''02000000'');
            trun2head = flatten (A [U8 (hex ''00000A05''),
                                    U8 (encodeInt32 (int (length (cache trackInfo))))]);
            trun2tail = flatten (A (U8 firstFrameFlags #
                          concat (map (\<lambda>c. [U8 (encodeInt32 (int (length (packet_data (packet c))))),
                                             U8 (encodeInt32 (packet_compositionTime (packet c)))])
                                      (cache trackInfo))));
            tdat2 = flatten (A (map (\<lambda>c. U8 (packet_data (packet c))) (cache trackInfo)))
        in ebind (tag ''tfhd'' (A [U8 (hex ''00020038''), U8 (encodeInt32 (int (i + 1))),
                                   U8 (encodeInt32 (videoFrameDuration trackInfo)),
                                   U8 (hex ''0000127B01010000'')])) (\<lambda>tfhd2.
           Inr (tfdt, \<lparr> tfhd = tfhd2, trunHead = trun2head, trunTail = trun2tail \<rparr>, tdat2,
                8 + length tfhd2 + 8 + length trun2head + 16 + 4 + length trun2tail)))
     else Inl UnsupportedCodec)"

fun chunk_tracks ::
  "nat \<Rightarrow> MP4Track list \<Rightarrow> error + MP4Track list \<times> (bytes \<times> trafPart \<times> bytes) list \<times> nat" where
  \<comment> \<open>the first loop of \<open>_chunk\<close>, from track \<open>i\<close> on: the tracks after it, the
      (\<open>tfdts\<close>, \<open>trafParts\<close>, \<open>tdatParts\<close>) entries in order, and the growth of \<open>moofLength\<close>\<close>
  "chunk_tracks i [] = Inr ([], [], 0)"
| "chunk_tracks i (trackInfo # rest) =
     (if cache trackInfo = [] then
        ebind (chunk_tracks (Suc i) rest) (\<lambda>(rest', parts, len).
        Inr (trackInfo # rest', parts, len))
      else
        ebind (chunk_track i trackInfo) (\<lambda>(tfdt, part, tdat, len1).
        ebind (chunk_tracks (Suc i) rest) (\<lambda>(rest', parts, len).
        Inr (trackInfo \<lparr> cachedDuration := cachedDuration trackInfo + totalDuration trackInfo,
                         cache := [] \<rparr> # rest',
             (tfdt, part, tdat) # parts, len1 + len))))"

fun chunk_trafs :: "nat \<Rightarrow> (bytes \<times> trafPart \<times> bytes) list \<Rightarrow> error + bytes list" where
  \<comment> \<open>the second loop of \<open>_chunk\<close>: the track fragment boxes, \<open>tdatOffset\<close> running\<close>
  "chunk_trafs tdatOffset [] = Inr []"
| "chunk_trafs tdatOffset ((tfdt, part, tdat) # rest) =
     ebind (tag ''trun'' (A [U8 (trunHead part), U8 (encodeInt32 (int tdatOffset)),
                             U8 (trunTail part)])) (\<lambda>trun.
     ebind (tag ''traf'' (A [U8 (tfhd part), U8 tfdt, U8 trun])) (\<lambda>traf.
     ebind (chunk_trafs (tdatOffset + length tdat) rest) (\<lambda>trafs.
     Inr (traf # trafs))))"

definition moofHeader_of :: "nat \<Rightarrow> bytes" where
  "moofHeader_of index =
     flatten (A [U8 (hex ''000000106D66686400000000''), U8 (encodeInt32 (int index))])"

definition chunk :: "MP4Mux \<Rightarrow> error + MP4Mux" where
  \<comment> \<open>\<open>_chunk\<close>. \<open>moofOffset\<close> and \<open>currentTrackTime\<close> are computed by the source and never used.\<close>
  "chunk m =
     (let moofHeader = moofHeader_of (chunkIndex m + 1)
      in ebind (chunk_tracks 0 (tracks m)) (\<lambda>(tracks', parts, len).
         ebind (chunk_trafs (8 + length moofHeader + 8 + len) parts) (\<lambda>trafs.
         ebind (tag ''moof'' (A (U8 moofHeader # map U8 trafs))) (\<lambda>moof.
         ebind (tag ''mdat'' (A (map (\<lambda>(tfdt, part, tdat). U8 tdat) parts))) (\<lambda>mdat.
         let chunk = flatten (A [U8 moof, U8 mdat])
         in Inr (m \<lparr> chunkIndex := chunkIndex m + 1,
                     tracks := tracks',
                     ondata := ondata m @ [chunk],
                     filePos := filePos m + length chunk,
                     cachedPackets := 0 \<rparr>))))))"

section \<open>Packet intake and flush\<close>

definition cache_push :: "int \<Rightarrow> CachedPacket \<Rightarrow> MP4Mux \<Rightarrow> error + MP4Mux" where
  \<comment> \<open>\<open>this.tracks[id].cache.push(...)\<close>: \<open>this.tracks[-1]\<close> is \<open>undefined\<close>, and reading its
      \<open>cache\<close> is a \<open>TypeError\<close>\<close>
  "cache_push tid c m =
     (if 0 \<le> tid \<and> nat tid < length (tracks m)
      then Inr (m \<lparr> tracks := (tracks m)[nat tid :=
                      (tracks m ! nat tid) \<lparr> cache := cache (tracks m ! nat tid) @ [c] \<rparr>] \<rparr>)
      else Inl TypeError)"

definition pushAudio :: "bytes \<Rightarrow> number \<Rightarrow> MP4Mux \<Rightarrow> error + MP4Mux" where
  \<comment> \<open>\<open>case AUDIO_PACKET\<close>\<close>
  "pushAudio data ts m =
     (let audioPacket = parseAudiodata data
      in ebind (if a_codecId audioPacket = MP3_SOUND_CODEC_ID then Inr m
                else if a_codecId audioPacket = AAC_SOUND_CODEC_ID then
                  (if a_packetType audioPacket \<noteq> Some 0 \<and> state m = 0
                   then generateHeader m else Inr m)
                else Inl UnsupportedAudioCodec) (\<lambda>m1.
         ebind (cache_push (audioTrackId m1) \<lparr> packet = AudioP audioPacket, timestamp = ts \<rparr> m1)
           (\<lambda>m2.
         Inr (m2 \<lparr> cachedPackets := cachedPackets m2 + 1 \<rparr>))))"

definition pushVideo :: "bytes \<Rightarrow> number \<Rightarrow> MP4Mux \<Rightarrow> error + MP4Mux" where
  \<comment> \<open>\<open>case VIDEO_PACKET\<close>\<close>
  "pushVideo data ts m =
     (let videoPacket = parseVideodata data
      in ebind (if v_codecId videoPacket = VP6_VIDEO_CODEC_ID then
                  (if v_frameType videoPacket = 1 \<and> cachedPackets m \<noteq> 0 then chunk m else Inr m)
                else if v_codecId videoPacket = AVC_VIDEO_CODEC_ID then
                  ebind (if v_packetType videoPacket \<noteq> Some 0 \<and> state m = 0
                         then generateHeader m else Inr m) (\<lambda>m0.
                  if v_frameType videoPacket = 1 \<and> cachedPackets m0 \<noteq> 0 then chunk m0 else Inr m0)
                else Inl UnsupportedVideoCodec) (\<lambda>m1.
         ebind (cache_push (videoTrackId m1) \<lparr> packet = VideoP videoPacket, timestamp = ts \<rparr> m1)
           (\<lambda>m2.
         Inr (m2 \<lparr> cachedPackets := cachedPackets m2 + 1 \<rparr>))))"

definition pushPacket_cache :: "nat \<Rightarrow> bytes \<Rightarrow> number \<Rightarrow> MP4Mux \<Rightarrow> error + MP4Mux" where
  \<comment> \<open>\<open>pushPacket\<close> up to the end of its \<open>switch\<close>: the sample is parsed and cached\<close>
  "pushPacket_cache type data ts m =
     ebind (if state m = 0 \<and> \<not> waitForAdditionalData m then generateHeader m else Inr m) (\<lambda>m0.
     if type = AUDIO_PACKET then pushAudio data ts m0
     else if type = VIDEO_PACKET then pushVideo data ts m0
     else Inl UnknownPacketType)"

definition pushPacket :: "nat \<Rightarrow> bytes \<Rightarrow> number \<Rightarrow> MP4Mux \<Rightarrow> error + MP4Mux" where
  "pushPacket type data ts m =
     ebind (pushPacket_cache type data ts m) (\<lambda>m1.
     if cachedPackets m1 \<ge> MAX_PACKETS_IN_CHUNK then chunk m1 else Inr m1)"

definition flush :: "MP4Mux \<Rightarrow> error + MP4Mux" where
  "flush m = (if cachedPackets m > 0 then chunk m else Inr m)"

text \<open>
  A sequence of calls on one muxer. An error ends the use of the instance.
\<close>

datatype call = PushPacket nat bytes number | Flush

fun do_call :: "call \<Rightarrow> MP4Mux \<Rightarrow> error + MP4Mux" where
  "do_call (PushPacket type data ts) m = pushPacket type data ts m"
| "do_call Flush m = flush m"

fun run :: "call list \<Rightarrow> MP4Mux \<Rightarrow> error + MP4Mux" where
  "run [] m = Inr m"
| "run (c # cs) m = ebind (do_call c m) (run cs)"


section \<open>Observations on the output\<close>

text \<open>
  What the sink received is told apart by the type tag at bytes 4 to 8 of a buffer: the file
  header starts with the \<open>ftyp\<close> box, a fragment with the \<open>moof\<close> box. In a fragment the
  sequence number is the last field of the \<open>mfhd\<close> box, at bytes 20 to 24.
\<close>

definition is_header :: "bytes \<Rightarrow> bool" where
  "is_header buf = (take 4 (drop 4 buf) = flatten (S ''ftyp''))"

definition is_fragment :: "bytes \<Rightarrow> bool" where
  "is_fragment buf = (take 4 (drop 4 buf) = flatten (S ''moof''))"

definition fragment_sequence :: "bytes \<Rightarrow> bytes" where
  "fragment_sequence buf = take 4 (drop 20 buf)"

definition headers :: "MP4Mux \<Rightarrow> bytes list" where
  "headers m = filter is_header (ondata m)"

definition fragments :: "MP4Mux \<Rightarrow> bytes list" where
  "fragments m = filter is_fragment (ondata m)"

definition pending :: "MP4Mux \<Rightarrow> CachedPacket list" where
  \<comment> \<open>the cached samples of all tracks, in track order\<close>
  "pending m = concat (map cache (tracks m))"

definition outcome :: "(MP4Mux \<Rightarrow> 'a) \<Rightarrow> error + MP4Mux \<Rightarrow> error + 'a" where
  \<comment> \<open>a field of the muxer a call returns\<close>
  "outcome f r = map_sum id f r"

text \<open>
  What a fragment does to a track: a track with cached samples gets their total duration
  added and its cache cleared, a track without is left as it is.
\<close>

definition emit_track :: "MP4Track \<Rightarrow> MP4Track" where
  "emit_track t =
     (if cache t = [] then t
      else t \<lparr> cachedDuration := cachedDuration t + totalDuration t, cache := [] \<rparr>)"

definition sample_data :: "CachedPacket list \<Rightarrow> bytes" where
  \<comment> \<open>the payloads of cached samples, concatenated in order\<close>
  "sample_data cs = concat (map (\<lambda>c. packet_data (packet c)) cs)"

definition log_ok :: "MP4Mux \<Rightarrow> bool" where
  \<comment> \<open>the output so far: fragment \<open>k\<close> carries sequence number \<open>k\<close>, \<open>chunkIndex\<close> counts the
      fragments, and \<open>state\<close> counts the headers\<close>
  "log_ok m \<longleftrightarrow>
     map fragment_sequence (fragments m) = map (\<lambda>k. encodeInt32 (int k)) [1..<Suc (chunkIndex m)]
     \<and> length (headers m) = state m \<and> state m \<le> 1"

section \<open>Example configurations\<close>

text \<open>
  A legacy video-only configuration (VP6, 320 by 240 at 25 frames per second) and the muxer
  the constructor builds from it.
\<close>

definition md_video :: metadata where
  "md_video = \<lparr> md_trackinfo = None, audiocodecid = Undefined, videocodecid = IdNum 4,
     audiosamplerate = NaN, audiochannels = NaN, videoframerate = NaN,
     md_framerate = Num 25, md_width = Num 320, md_height = Num 240 \<rparr>"

definition mux_video :: MP4Mux where
  "mux_video = new_mux md_video
     [\<lparr> language = ''unk'', ttype = ''vp6f'', timescale = Num 10000, cache = [],
        cachedDuration = 0, samplerate = NaN, channels = NaN, framerate = Num 25,
        width = Num 320, height = Num 240 \<rparr>] (- 1) 0 False"

text \<open>
  The size of the track fragment box built from one entry of the first loop of \<open>_chunk\<close>, and
  the tracks header generation can describe: a legacy type, or an \<open>mp4a\<close> or \<open>avc1\<close> track
  whose first cached sample (the codec configuration) is at most \<open>2 ^ 20\<close> bytes long.
\<close>

definition traf_size :: "bytes \<times> trafPart \<times> bytes \<Rightarrow> nat" where
  "traf_size p = (case p of (tfdt, part, tdat) \<Rightarrow>
     8 + length (tfhd part) + length tfdt + (8 + length (trunHead part) + 4 + length (trunTail part)))"

definition header_ready :: "MP4Track \<Rightarrow> bool" where
  "header_ready t \<longleftrightarrow>
     ttype t = ''mp3'' \<or> ttype t = ''vp6f'' \<or>
     ((ttype t = ''mp4a'' \<or> ttype t = ''avc1'') \<and>
      (case cache t of [] \<Rightarrow> False | c # _ \<Rightarrow> length (packet_data (packet c)) \<le> 2 ^ 20))"

text \<open>
  A deferred-header configuration with one AVC track, one with an AVC and an AAC track, and
  the muxers the constructor builds from them.
\<close>

definition md_avc :: metadata where
  "md_avc = \<lparr> md_trackinfo = Some [\<lparr> ti_language = ''und'', ti_sampletype = ''avc1'',
                                      ti_timescale = Num 30000 \<rparr>],
     audiocodecid = Undefined, videocodecid = IdStr ''avc1'',
     audiosamplerate = NaN, audiochannels = NaN, videoframerate = Num 30,
     md_framerate = NaN, md_width = Num 640, md_height = Num 360 \<rparr>"

definition mux_avc :: MP4Mux where
  "mux_avc = new_mux md_avc
     [\<lparr> language = ''und'', ttype = ''avc1'', timescale = Num 30000, cache = [],
        cachedDuration = 0, samplerate = NaN, channels = NaN, framerate = Num 30,
        width = Num 640, height = Num 360 \<rparr>] (- 1) 0 True"

definition md_av :: metadata where
  "md_av = \<lparr> md_trackinfo = Some [\<lparr> ti_language = ''und'', ti_sampletype = ''avc1'',
                                     ti_timescale = Num 30000 \<rparr>,
                                   \<lparr> ti_language = ''eng'', ti_sampletype = ''mp4a'',
                                     ti_timescale = Num 44100 \<rparr>],
     audiocodecid = IdStr ''mp4a'', videocodecid = IdStr ''avc1'',
     audiosamplerate = Num 44100, audiochannels = Num 2, videoframerate = Num 30,
     md_framerate = NaN, md_width = Num 640, md_height = Num 360 \<rparr>"

definition mux_av :: MP4Mux where
  "mux_av = new_mux md_av
     [\<lparr> language = ''und'', ttype = ''avc1'', timescale = Num 30000, cache = [],
        cachedDuration = 0, samplerate = NaN, channels = NaN, framerate = Num 30,
        width = Num 640, height = Num 360 \<rparr>,
      \<lparr> language = ''eng'', ttype = ''mp4a'', timescale = Num 44100, cache = [],
        cachedDuration = 0, samplerate = Num 44100, channels = Num 2, framerate = NaN,
        width = NaN, height = NaN \<rparr>] 1 0 True"

text \<open>
  Example packets: an AVC sequence header (key frame, packet type 0), an AVC key frame and
  an AVC inter frame (packet type 1), an AAC sequence header (packet type 0) and an AAC raw
  frame (packet type 1), a VP6 inter frame and a VP6 key frame.
\<close>

definition avc_config :: bytes where
  "avc_config = [0x17, 0x00, 0x00, 0x00, 0x00, 0x01, 0x64, 0x00, 0x1E, 0xFF, 0xE1]"

definition avc_key :: bytes where
  "avc_key = [0x17, 0x01, 0x00, 0x00, 0x00, 0x65, 0x88]"

definition avc_inter :: bytes where
  "avc_inter = [0x27, 0x01, 0x00, 0x00, 0x00, 0x41, 0x9A]"

definition aac_config :: bytes where
  "aac_config = [0xAF, 0x00, 0x12, 0x10]"

definition aac_raw :: bytes where
  "aac_raw = [0xAF, 0x01, 0x21, 0x00]"

definition vp6_inter :: bytes where
  "vp6_inter = [0x24, 0x00, 0x07]"

definition vp6_key :: bytes where
  "vp6_key = [0x14, 0x00, 0x09]"

text \<open>
  Deferred-header configurations with a data track of a type header generation does not
  support: one with an AAC track beside it, one with an AVC track and no audio track.
\<close>

definition md_data_aac :: metadata where
  "md_data_aac = \<lparr> md_trackinfo = Some [\<lparr> ti_language = ''und'', ti_sampletype = ''amf0'',
                                           ti_timescale = Num 1000 \<rparr>,
                                         \<lparr> ti_language = ''eng'', ti_sampletype = ''mp4a'',
                                           ti_timescale = Num 44100 \<rparr>],
     audiocodecid = IdStr ''mp4a'', videocodecid = Undefined,
     audiosamplerate = Num 44100, audiochannels = Num 2, videoframerate = NaN,
     md_framerate = NaN, md_width = NaN, md_height = NaN \<rparr>"

definition mux_data_aac :: MP4Mux where
  "mux_data_aac = new_mux md_data_aac
     [\<lparr> language = ''und'', ttype = ''amf0'', timescale = Num 1000, cache = [],
        cachedDuration = 0, samplerate = NaN, channels = NaN, framerate = NaN,
        width = NaN, height = NaN \<rparr>,
      \<lparr> language = ''eng'', ttype = ''mp4a'', timescale = Num 44100, cache = [],
        cachedDuration = 0, samplerate = Num 44100, channels = Num 2, framerate = NaN,
        width = NaN, height = NaN \<rparr>] 1 (- 1) True"

definition md_data_avc :: metadata where
  "md_data_avc = \<lparr> md_trackinfo = Some [\<lparr> ti_language = ''und'', ti_sampletype = ''amf0'',
                                           ti_timescale = Num 1000 \<rparr>,
                                         \<lparr> ti_language = ''und'', ti_sampletype = ''avc1'',
                                           ti_timescale = Num 30000 \<rparr>],
     audiocodecid = Undefined, videocodecid = IdStr ''avc1'',
     audiosamplerate = NaN, audiochannels = NaN, videoframerate = Num 30,
     md_framerate = NaN, md_width = Num 640, md_height = Num 360 \<rparr>"

definition mux_data_avc :: MP4Mux where
  "mux_data_avc = new_mux md_data_avc
     [\<lparr> language = ''und'', ttype = ''amf0'', timescale = Num 1000, cache = [],
        cachedDuration = 0, samplerate = NaN, channels = NaN, framerate = NaN,
        width = NaN, height = NaN \<rparr>,
      \<lparr> language = ''und'', ttype = ''avc1'', timescale = Num 30000, cache = [],
        cachedDuration = 0, samplerate = NaN, channels = NaN, framerate = Num 30,
        width = Num 640, height = Num 360 \<rparr>] (- 1) 1 True"

text \<open>
  A legacy audio-only configuration (MP3 at the default rate).
\<close>

definition md_audio :: metadata where
  "md_audio = \<lparr> md_trackinfo = None, audiocodecid = IdNum 2, videocodecid = Undefined,
     audiosamplerate = NaN, audiochannels = NaN, videoframerate = NaN,
     md_framerate = NaN, md_width = NaN, md_height = NaN \<rparr>"

definition mux_audio :: MP4Mux where
  "mux_audio = new_mux md_audio
     [\<lparr> language = ''unk'', ttype = ''mp3'', timescale = Num 44100, cache = [],
        cachedDuration = 0, samplerate = Num 44100, channels = Num 2, framerate = NaN,
        width = NaN, height = NaN \<rparr>] 0 (- 1) False"

definition mp3_frame :: bytes where
  "mp3_frame = [0x2F, 0xFF, 0xFB, 0x90, 0x00]"

text \<open>
  The bytes of a box, as \<open>tag\<close> returns them when it succeeds.
\<close>

definition box :: "string \<Rightarrow> bytes \<Rightarrow> bytes" where
  "box name payload =
     encodeInt32 (int (8 + length payload)) @ map (\<lambda>c. of_nat (of_char c)) name @ payload"

definition audio_run_entries :: "MP4Track \<Rightarrow> bytes" where
  \<comment> \<open>the (duration, size) entries of an audio sample run, in cache order\<close>
  "audio_run_entries t =
     concat (map (\<lambda>c. encodeInt32 (audioFrameDuration t (packet c))
                      @ encodeInt32 (int (length (packet_data (packet c))))) (cache t))"

definition contributing :: "MP4Mux \<Rightarrow> MP4Track list" where
  \<comment> \<open>the tracks a fragment is built from: those with cached samples, in track order\<close>
  "contributing m = filter (\<lambda>t. cache t \<noteq> []) (tracks m)"

text \<open>
  A deferred-header configuration with one AAC track at 5500 Hz, whose timescale is the
  sample rate, and its track.
\<close>

definition md_aac_5500 :: metadata where
  "md_aac_5500 = \<lparr> md_trackinfo = Some [\<lparr> ti_language = ''eng'', ti_sampletype = ''mp4a'',
                                           ti_timescale = Num 5500 \<rparr>],
     audiocodecid = IdStr ''mp4a'', videocodecid = Undefined,
     audiosamplerate = Num 5500, audiochannels = Num 1, videoframerate = NaN,
     md_framerate = NaN, md_width = NaN, md_height = NaN \<rparr>"

definition aac_5500_track :: MP4Track where
  "aac_5500_track =
     \<lparr> language = ''eng'', ttype = ''mp4a'', timescale = Num 5500, cache = [],
       cachedDuration = 0, samplerate = Num 5500, channels = Num 1, framerate = NaN,
       width = NaN, height = NaN \<rparr>"

definition mux_aac_5500 :: MP4Mux where
  "mux_aac_5500 = new_mux md_aac_5500 [aac_5500_track] 0 (- 1) True"

text \<open>
  What caching a sample does to the muxer, and an AVC packet of type 0 that is marked as an
  inter frame.
\<close>

definition with_cached :: "int \<Rightarrow> CachedPacket \<Rightarrow> MP4Mux \<Rightarrow> MP4Mux" where
  \<comment> \<open>the muxer with one more sample at the end of the cache of track \<open>tid\<close>, counted\<close>
  "with_cached tid c m =
     m \<lparr> tracks := (tracks m)[nat tid :=
            (tracks m ! nat tid) \<lparr> cache := cache (tracks m ! nat tid) @ [c] \<rparr>],
         cachedPackets := cachedPackets m + 1 \<rparr>"


section \<open>Basic facts\<close>

lemma ebind_Inl [simp]: "ebind (Inl e) f = Inl e"
  by (simp add: ebind_def)

lemma ebind_Inr [simp]: "ebind (Inr x) f = f x"
  by (simp add: ebind_def)

lemma ebind_eq_Inr: "ebind r f = Inr y \<longleftrightarrow> (\<exists>x. r = Inr x \<and> f x = Inr y)"
  by (cases r) simp_all

lemma ebind_eq_Inl: "ebind r f = Inl e \<longleftrightarrow> r = Inl e \<or> (\<exists>x. r = Inr x \<and> f x = Inl e)"
  by (cases r) simp_all

lemma length_encodeInt32 [simp]: "length (encodeInt32 n) = 4"
  by (simp add: encodeInt32_def)

lemma be32_encodeInt32: "n < 2 ^ 32 \<Longrightarrow> be32 (encodeInt32 (int n)) = n"
proof -
  assume n: "n < 2 ^ 32"
  have d: "int n div 2 ^ 24 = int (n div 2 ^ 24)" "int n div 2 ^ 16 = int (n div 2 ^ 16)"
    "int n div 2 ^ 8 = int (n div 2 ^ 8)"
    by (simp_all add: zdiv_int)
  define a where "a = n div 256"
  define b where "b = a div 256"
  define c where "c = b div 256"
  have e: "n div 2 ^ 8 = a" "n div 2 ^ 16 = b" "n div 2 ^ 24 = c"
    by (simp_all add: a_def b_def c_def div_mult2_eq)
  have c: "c < 256" using n unfolding e(3)[symmetric] by (simp add: less_mult_imp_div_less)
  have "be32 (encodeInt32 (int n)) =
     ((c mod 256 * 256 + b mod 256) * 256 + a mod 256) * 256 + n mod 256"
    unfolding be32_def encodeInt32_def d e by (simp add: unat_of_nat)
  also have "\<dots> = ((c * 256 + b mod 256) * 256 + a mod 256) * 256 + n mod 256"
    using c by simp
  also have "c * 256 + b mod 256 = b" by (simp add: c_def)
  also have "b * 256 + a mod 256 = a" by (simp add: b_def)
  also have "a * 256 + n mod 256 = n" by (simp add: a_def)
  finally show ?thesis .
qed

lemma tag_Inr:
  "length name = 4 \<Longrightarrow> 8 + length (flatten d) \<le> 0x7FFFFFFF \<Longrightarrow>
   tag name d = Inr (encodeInt32 (int (8 + length (flatten d)))
                     @ map (\<lambda>c. of_nat (of_char c)) name @ flatten d)"
  by (simp add: tag_def Let_def)

lemma tag_eq_Inr:
  "tag name d = Inr b \<longleftrightarrow>
     length name = 4 \<and> 8 + length (flatten d) \<le> 0x7FFFFFFF \<and>
     b = encodeInt32 (int (8 + length (flatten d))) @ map (\<lambda>c. of_nat (of_char c)) name @ flatten d"
  by (auto simp: tag_def Let_def)

lemma tag_eq_Inl:
  "tag name d = Inl e \<longleftrightarrow>
     (length name \<noteq> 4 \<and> e = BadTagName) \<or>
     (length name = 4 \<and> 0x7FFFFFFF < 8 + length (flatten d) \<and> e = BadTagLength)"
  by (auto simp: tag_def Let_def)

section \<open>The box encoder\<close>

text \<open>
  C5. For a tag \<open>T\<close> of four characters and a payload \<open>P\<close> with \<open>8 + len P\<close> at most
  \<open>0x7FFFFFFF\<close>, \<open>tag\<close> returns a buffer of \<open>8 + len P\<close> bytes whose first four bytes are the
  big-endian integer \<open>8 + len P\<close>, whose bytes 4 to 8 are the character codes of \<open>T\<close> and whose
  remaining bytes are \<open>P\<close>. It fails exactly when the tag does not have four characters or
  the total length exceeds \<open>0x7FFFFFFF\<close>.
\<close>

theorem tag_box_layout:
  "(length T = 4 \<and> 8 + length (flatten P) \<le> 0x7FFFFFFF \<longrightarrow>
      (\<exists>buf. tag T P = Inr buf
         \<and> length buf = 8 + length (flatten P)
         \<and> be32 (take 4 buf) = 8 + length (flatten P)
         \<and> take 4 (drop 4 buf) = map (\<lambda>c. of_nat (of_char c)) T
         \<and> drop 8 buf = flatten P))
   \<and> ((\<exists>e. tag T P = Inl e) \<longleftrightarrow> length T \<noteq> 4 \<or> 0x7FFFFFFF < 8 + length (flatten P))"
proof (intro conjI impI)
  assume a: "length T = 4 \<and> 8 + length (flatten P) \<le> 0x7FFFFFFF"
  then have lt: "8 + length (flatten P) < 2 ^ 32" by simp
  show "\<exists>buf. tag T P = Inr buf
         \<and> length buf = 8 + length (flatten P)
         \<and> be32 (take 4 buf) = 8 + length (flatten P)
         \<and> take 4 (drop 4 buf) = map (\<lambda>c. of_nat (of_char c)) T
         \<and> drop 8 buf = flatten P"
    using a be32_encodeInt32 [OF lt] by (simp add: tag_Inr)
next
  show "(\<exists>e. tag T P = Inl e) \<longleftrightarrow> length T \<noteq> 4 \<or> 0x7FFFFFFF < 8 + length (flatten P)"
    by (auto simp: tag_eq_Inl)
qed

theorem tag_box_layout_witness:
  "tag ''mdat'' (A [U8 [1, 2], N 3]) = Inr [0, 0, 0, 11, 109, 100, 97, 116, 1, 2, 3]
   \<and> be32 [0, 0, 0, 11] = 11
   \<and> (\<exists>e. tag ''mda'' (U8 []) = Inl e)"
  using tag_box_layout [of "''mdat''" "A [U8 [1, 2], N 3]"] tag_box_layout [of "''mda''" "U8 []"]
  by (simp add: be32_def tag_def encodeInt32_def)

section \<open>The audio parser\<close>

lemma byte_num_Cons0 [simp]: "byte_num (b # rest) 0 = unat b"
  by (simp add: byte_num_def)








section \<open>Effects of header and fragment emission\<close>

lemma map_flatten_U8 [simp]: "map (flatten \<circ> U8) bs = bs"
  by (induction bs) simp_all

lemma tag_flatten: "tag name d = tag name (U8 (flatten d))"
  by (simp add: tag_def)

lemma generateHeaderE:
  assumes "generateHeader m = Inr m'"
  obtains traks moov where
    "header_traks 0 (tracks m) = Inr traks"
    "tag ''moov'' (A [moovHeader (length (tracks m)), A (map U8 traks), U8 mvexAndUdat]) = Inr moov"
    "m' = m \<lparr> tracks := map (\<lambda>t. t \<lparr> cache := [] \<rparr>) (tracks m), cachedPackets := 0,
               ondata := ondata m @ [ftype @ moov],
               filePos := filePos m + length (ftype @ moov), state := 1 \<rparr>"
  using assms unfolding generateHeader_def Let_def
  by (auto simp: ebind_eq_Inr)

lemma ftype_bytes:
  "ftype = [0, 0, 0, 32, 102, 116, 121, 112, 105, 115, 111, 109, 0, 0, 2, 0,
            105, 115, 111, 109, 105, 115, 111, 50, 97, 118, 99, 49, 109, 112, 52, 49]"
  by (simp add: ftype_def)

lemma is_header_ftype [simp]: "is_header (ftype @ b)" "\<not> is_fragment (ftype @ b)"
  by (simp_all add: ftype_bytes is_header_def is_fragment_def)

lemma moofHeader_bytes:
  "moofHeader_of k = [0, 0, 0, 16, 109, 102, 104, 100, 0, 0, 0, 0] @ encodeInt32 (int k)"
  by (simp add: moofHeader_of_def)

lemma moof_box:
  assumes "tag ''moof'' (A (U8 (moofHeader_of k) # map U8 trafs)) = Inr moof"
  shows "is_fragment (moof @ b)" "\<not> is_header (moof @ b)"
    "fragment_sequence (moof @ b) = encodeInt32 (int k)"
proof -
  from assms obtain n where
    m: "moof = encodeInt32 n @ [109, 111, 111, 102] @ moofHeader_of k @ concat trafs"
    by (simp add: tag_eq_Inr)
  show "is_fragment (moof @ b)" "\<not> is_header (moof @ b)"
    by (simp_all add: m is_fragment_def is_header_def)
  show "fragment_sequence (moof @ b) = encodeInt32 (int k)"
    by (simp add: m fragment_sequence_def moofHeader_bytes)
qed

lemma chunkE:
  assumes "chunk m = Inr m'"
  obtains tracks' parts len trafs moof mdat where
    "chunk_tracks 0 (tracks m) = Inr (tracks', parts, len)"
    "chunk_trafs (8 + length (moofHeader_of (chunkIndex m + 1)) + 8 + len) parts = Inr trafs"
    "tag ''moof'' (A (U8 (moofHeader_of (chunkIndex m + 1)) # map U8 trafs)) = Inr moof"
    "tag ''mdat'' (A (map (\<lambda>(tfdt, part, tdat). U8 tdat) parts)) = Inr mdat"
    "m' = m \<lparr> chunkIndex := chunkIndex m + 1, tracks := tracks',
               ondata := ondata m @ [moof @ mdat],
               filePos := filePos m + length (moof @ mdat), cachedPackets := 0 \<rparr>"
  using assms unfolding chunk_def Let_def
  by (auto simp: ebind_eq_Inr)

lemma chunk_tracks_Inr:
  "chunk_tracks i ts = Inr (ts', parts, len) \<Longrightarrow>
     ts' = map emit_track ts
     \<and> map (\<lambda>(tfdt, part, tdat). tdat) parts
         = map (\<lambda>t. sample_data (cache t)) (filter (\<lambda>t. cache t \<noteq> []) ts)
     \<and> map (\<lambda>(tfdt, part, tdat). Inr tfdt) parts
         = map tfdt_of (filter (\<lambda>t. cache t \<noteq> []) ts)"
proof (induction ts arbitrary: i ts' parts len)
  case Nil
  then show ?case by simp
next
  case (Cons t ts)
  show ?case
  proof (cases "cache t = []")
    case True
    with Cons.prems obtain r p l where r: "chunk_tracks (Suc i) ts = Inr (r, p, l)"
      and e: "ts' = t # r" "parts = p" "len = l"
      by (auto simp: ebind_eq_Inr)
    from Cons.IH [OF r] True e show ?thesis by (simp add: emit_track_def)
  next
    case False
    with Cons.prems obtain tfdt part tdat l1 r p l where
      c: "chunk_track i t = Inr (tfdt, part, tdat, l1)"
      and r: "chunk_tracks (Suc i) ts = Inr (r, p, l)"
      and e: "ts' = t \<lparr> cachedDuration := cachedDuration t + totalDuration t, cache := [] \<rparr> # r"
         "parts = (tfdt, part, tdat) # p" "len = l1 + l"
      by (auto simp: ebind_eq_Inr)
    from c have "tfdt_of t = Inr tfdt \<and> tdat = sample_data (cache t)"
      by (auto simp: chunk_track_def Let_def ebind_eq_Inr sample_data_def comp_def
          split: if_splits)
    with Cons.IH [OF r] False e show ?thesis by (simp add: emit_track_def)
  qed
qed

lemma sample_data_pending:
  "concat (map (\<lambda>t. sample_data (cache t)) (filter (\<lambda>t. cache t \<noteq> []) ts))
     = sample_data (concat (map cache ts))"
  by (induction ts) (simp_all add: sample_data_def)

lemma flatten_tdats:
  "flatten (A (map (\<lambda>(tfdt, part, tdat). U8 tdat) parts))
     = concat (map (\<lambda>(tfdt, part, tdat). tdat) parts)"
  by (induction parts) auto

lemma chunk_Inr:
  assumes "chunk m = Inr m'"
  shows "\<exists>moof mdat.
     m' = m \<lparr> chunkIndex := chunkIndex m + 1, tracks := map emit_track (tracks m),
              ondata := ondata m @ [moof @ mdat],
              filePos := filePos m + length (moof @ mdat), cachedPackets := 0 \<rparr>
     \<and> is_fragment (moof @ mdat) \<and> \<not> is_header (moof @ mdat)
     \<and> fragment_sequence (moof @ mdat) = encodeInt32 (int (chunkIndex m + 1))
     \<and> tag ''mdat'' (U8 (sample_data (pending m))) = Inr mdat"
proof -
  from assms obtain tracks' parts len trafs moof mdat where
    t: "chunk_tracks 0 (tracks m) = Inr (tracks', parts, len)"
    and moof: "tag ''moof'' (A (U8 (moofHeader_of (chunkIndex m + 1)) # map U8 trafs)) = Inr moof"
    and mdat: "tag ''mdat'' (A (map (\<lambda>(tfdt, part, tdat). U8 tdat) parts)) = Inr mdat"
    and m': "m' = m \<lparr> chunkIndex := chunkIndex m + 1, tracks := tracks',
               ondata := ondata m @ [moof @ mdat],
               filePos := filePos m + length (moof @ mdat), cachedPackets := 0 \<rparr>"
    by (rule chunkE)
  from chunk_tracks_Inr [OF t] have tr: "tracks' = map emit_track (tracks m)"
    and td: "map (\<lambda>(tfdt, part, tdat). tdat) parts
         = map (\<lambda>t. sample_data (cache t)) (filter (\<lambda>t. cache t \<noteq> []) (tracks m))"
    by simp_all
  have "flatten (A (map (\<lambda>(tfdt, part, tdat). U8 tdat) parts)) = sample_data (pending m)"
    by (simp only: flatten_tdats td sample_data_pending pending_def)
  with mdat have "tag ''mdat'' (U8 (sample_data (pending m))) = Inr mdat"
    by (metis tag_flatten)
  with m' tr moof_box [OF moof] show ?thesis by blast
qed

lemma generateHeader_Inr:
  assumes "generateHeader m = Inr m'"
  shows "\<exists>h. m' = m \<lparr> tracks := map (\<lambda>t. t \<lparr> cache := [] \<rparr>) (tracks m), cachedPackets := 0,
               ondata := ondata m @ [h], filePos := filePos m + length h, state := 1 \<rparr>
     \<and> is_header h \<and> \<not> is_fragment h"
  using assms by (elim generateHeaderE) (metis is_header_ftype)

lemma log_ok_chunk:
  assumes "log_ok m" "chunk m = Inr m'"
  shows "log_ok m'"
proof -
  from chunk_Inr [OF assms(2)] obtain c where
    m': "m' = m \<lparr> chunkIndex := chunkIndex m + 1, tracks := map emit_track (tracks m),
              ondata := ondata m @ [c], filePos := filePos m + length c, cachedPackets := 0 \<rparr>"
    and c: "is_fragment c" "\<not> is_header c"
      "fragment_sequence c = encodeInt32 (int (chunkIndex m + 1))"
    by blast
  show ?thesis using assms(1) c by (simp add: log_ok_def fragments_def headers_def m')
qed

lemma log_ok_generateHeader:
  assumes "log_ok m" "state m = 0" "generateHeader m = Inr m'"
  shows "log_ok m'"
proof -
  from generateHeader_Inr [OF assms(3)] obtain h where
    m': "m' = m \<lparr> tracks := map (\<lambda>t. t \<lparr> cache := [] \<rparr>) (tracks m), cachedPackets := 0,
               ondata := ondata m @ [h], filePos := filePos m + length h, state := 1 \<rparr>"
    and h: "is_header h" "\<not> is_fragment h"
    by blast
  show ?thesis using assms(1,2) h by (simp add: log_ok_def fragments_def headers_def m')
qed

lemma cache_push_Inr:
  "cache_push tid c m = Inr m' \<longleftrightarrow>
     0 \<le> tid \<and> nat tid < length (tracks m) \<and>
     m' = m \<lparr> tracks := (tracks m)[nat tid :=
                 (tracks m ! nat tid) \<lparr> cache := cache (tracks m ! nat tid) @ [c] \<rparr>] \<rparr>"
  by (auto simp: cache_push_def)

lemma log_ok_tracks [simp]: "log_ok (m \<lparr> tracks := ts \<rparr>) = log_ok m"
  "log_ok (m \<lparr> cachedPackets := n \<rparr>) = log_ok m"
  by (simp_all add: log_ok_def fragments_def headers_def)

lemma log_ok_pushAudio:
  assumes "log_ok m" "pushAudio data ts m = Inr m'"
  shows "log_ok m'"
  using assms unfolding pushAudio_def Let_def
  by (auto simp: ebind_eq_Inr cache_push_Inr split: if_splits
      intro: log_ok_generateHeader)

lemma log_ok_pushVideo:
  assumes "log_ok m" "pushVideo data ts m = Inr m'"
  shows "log_ok m'"
  using assms unfolding pushVideo_def Let_def
  by (auto simp: ebind_eq_Inr cache_push_Inr split: if_splits)
    (blast intro: log_ok_generateHeader log_ok_chunk)+

lemma log_ok_pushPacket_cache:
  assumes "log_ok m" "pushPacket_cache type data ts m = Inr m'"
  shows "log_ok m'"
  using assms unfolding pushPacket_cache_def
  by (auto simp: ebind_eq_Inr split: if_splits
      intro: log_ok_generateHeader log_ok_pushAudio log_ok_pushVideo)

lemma log_ok_pushPacket:
  assumes "log_ok m" "pushPacket type data ts m = Inr m'"
  shows "log_ok m'"
  using assms unfolding pushPacket_def
  by (auto simp: ebind_eq_Inr split: if_splits intro: log_ok_pushPacket_cache log_ok_chunk)

lemma log_ok_flush:
  assumes "log_ok m" "flush m = Inr m'"
  shows "log_ok m'"
  using assms unfolding flush_def by (auto split: if_splits intro: log_ok_chunk)

lemma log_ok_run:
  "log_ok m \<Longrightarrow> run cs m = Inr m' \<Longrightarrow> log_ok m'"
proof (induction cs arbitrary: m)
  case Nil
  then show ?case by simp
next
  case (Cons c cs)
  from Cons.prems(2) obtain m1 where s: "do_call c m = Inr m1" and r: "run cs m1 = Inr m'"
    by (auto simp: ebind_eq_Inr)
  from s Cons.prems(1) have "log_ok m1"
    by (cases c) (auto intro: log_ok_pushPacket log_ok_flush)
  with r show ?case by (rule Cons.IH [rotated])
qed

lemma MP4Mux_new_fields:
  assumes "MP4Mux_new md = Inr m"
  shows "ondata m = []" "chunkIndex m = 0" "state m = 0" "cachedPackets m = 0" "filePos m = 0"
    "waitForAdditionalData m \<longleftrightarrow> md_trackinfo md \<noteq> None"
  using assms unfolding MP4Mux_new_def new_mux_def
  by (auto simp: ebind_eq_Inr split: option.splits prod.splits if_splits)

lemma log_ok_new: "MP4Mux_new md = Inr m \<Longrightarrow> log_ok m"
  by (simp add: log_ok_def fragments_def headers_def MP4Mux_new_fields)

lemma cache_emit_track [simp]: "cache (emit_track t) = []"
  by (simp add: emit_track_def)

section \<open>Evaluation on the example configurations\<close>


lemmas eval_defs = pushPacket_def pushPacket_cache_def pushVideo_def pushAudio_def cache_push_def
  generateHeader_def chunk_def chunk_track_def tfdt_of_def moofHeader_of_def moovHeader_def
  codecInfo_of_def trak_of_def tag_def Let_def parseVideodata_def parseAudiodata_def
  byte_num_def byte_at_def index_opt_def VIDEOCODECS_def SOUNDFORMATS_def SOUNDRATES_def
  AUDIO_PACKET_def VIDEO_PACKET_def MAX_PACKETS_IN_CHUNK_def VP6_VIDEO_CODEC_ID_def
  AVC_VIDEO_CODEC_ID_def MP3_SOUND_CODEC_ID_def AAC_SOUND_CODEC_ID_def new_mux_def
  encodeInt32_def encodeUint16_def encodeFloat_def encodeFloat16_def encodeLang_def charCodeAt_def
  ftype_def mvexAndUdat_def flush_def

section \<open>Fragment sequence numbers\<close>

text \<open>
  C7. On a muxer built by the constructor, after any sequence of \<open>pushPacket\<close> and \<open>flush\<close>
  calls that all return, the fragments the sink received carry, in order of emission, the
  sequence numbers 1, 2, 3, ...: the sequence field of the \<open>k\<close>-th fragment is the 32-bit
  big-endian encoding of \<open>k\<close>, and \<open>chunkIndex\<close> is the number of fragments emitted. (The
  field has 32 bits, so it reads back as \<open>k\<close> for the first \<open>2 ^ 32 - 1\<close> fragments.)
\<close>

theorem fragment_sequence_numbers:
  assumes "MP4Mux_new md = Inr m0" and "run cs m0 = Inr m"
  shows "map fragment_sequence (fragments m)
           = map (\<lambda>k. encodeInt32 (int k)) [1..<Suc (chunkIndex m)]
     \<and> length (fragments m) = chunkIndex m
     \<and> (chunkIndex m < 2 ^ 32 \<longrightarrow>
          map (\<lambda>c. be32 (fragment_sequence c)) (fragments m) = [1..<Suc (chunkIndex m)])"
proof -
  from assms have ok: "log_ok m" by (blast intro: log_ok_new log_ok_run)
  then have s: "map fragment_sequence (fragments m)
           = map (\<lambda>k. encodeInt32 (int k)) [1..<Suc (chunkIndex m)]"
    by (simp add: log_ok_def)
  from arg_cong [OF s, of length] have l: "length (fragments m) = chunkIndex m" by simp
  have "map (\<lambda>c. be32 (fragment_sequence c)) (fragments m) = [1..<Suc (chunkIndex m)]"
    if "chunkIndex m < 2 ^ 32"
  proof -
    have "map (\<lambda>c. be32 (fragment_sequence c)) (fragments m)
        = map be32 (map fragment_sequence (fragments m))" by simp
    also have "\<dots> = map (\<lambda>k. be32 (encodeInt32 (int k))) [1..<Suc (chunkIndex m)]"
      unfolding s by simp
    also have "\<dots> = map (\<lambda>k. k) [1..<Suc (chunkIndex m)]"
      using that by (intro map_cong refl be32_encodeInt32) auto
    finally show ?thesis by simp
  qed
  with s l show ?thesis by blast
qed

section \<open>Explicit flush\<close>


section \<open>When the emissions succeed\<close>

lemma flatten_pairs:
  "concat (map flatten (concat (map (\<lambda>c. [U8 (f c), U8 (g c)]) cs)))
     = concat (map (\<lambda>c. f c @ g c) cs)"
  by (induction cs) simp_all

lemma length_concat_pairs:
  "length (concat (map (\<lambda>c. encodeInt32 (f c) @ encodeInt32 (g c)) cs)) = 8 * length cs"
  by (induction cs) simp_all

lemma chunk_track_ok:
  assumes "ttype t = ''mp4a'' \<or> ttype t = ''mp3'' \<or> ttype t = ''avc1'' \<or> ttype t = ''vp6f''"
    and "cache t \<noteq> []"
  shows "\<exists>tfdt part tdat len. chunk_track i t = Inr (tfdt, part, tdat, len)
     \<and> traf_size (tfdt, part, tdat) \<le> 76 + 8 * length (cache t)"
proof -
  obtain c cs where c: "cache t = c # cs" using assms(2) by (cases "cache t") auto
  show ?thesis
    using assms(1)
    by (auto simp: chunk_track_def tfdt_of_def tag_def Let_def traf_size_def c
        flatten_pairs length_concat_pairs)
qed

lemma chunk_tracks_ok:
  assumes "\<forall>t\<in>set ts. cache t \<noteq> [] \<longrightarrow>
      ttype t = ''mp4a'' \<or> ttype t = ''mp3'' \<or> ttype t = ''avc1'' \<or> ttype t = ''vp6f''"
  shows "\<exists>ts' parts len. chunk_tracks i ts = Inr (ts', parts, len)
     \<and> sum_list (map traf_size parts) \<le> 76 * length ts + 8 * length (concat (map cache ts))"
  using assms
proof (induction ts arbitrary: i)
  case Nil
  then show ?case by simp
next
  case (Cons t ts)
  from Cons.prems have "\<forall>t\<in>set ts. cache t \<noteq> [] \<longrightarrow>
      ttype t = ''mp4a'' \<or> ttype t = ''mp3'' \<or> ttype t = ''avc1'' \<or> ttype t = ''vp6f''"
    by simp
  from Cons.IH [OF this, of "Suc i"] obtain ts' parts len where
    r: "chunk_tracks (Suc i) ts = Inr (ts', parts, len)"
    and s: "sum_list (map traf_size parts) \<le> 76 * length ts + 8 * length (concat (map cache ts))"
    by blast
  show ?case
  proof (cases "cache t = []")
    case True
    with r s show ?thesis by simp
  next
    case False
    with Cons.prems have "ttype t = ''mp4a'' \<or> ttype t = ''mp3'' \<or> ttype t = ''avc1'' \<or> ttype t = ''vp6f''"
      by simp
    from chunk_track_ok [OF this False, of i] obtain tfdt part tdat l where
      c: "chunk_track i t = Inr (tfdt, part, tdat, l)"
      and b: "traf_size (tfdt, part, tdat) \<le> 76 + 8 * length (cache t)"
      by blast
    from False r s c b show ?thesis by simp
  qed
qed

lemma chunk_trafs_ok:
  assumes "\<forall>p\<in>set parts. traf_size p \<le> 0x7FFFFFFF"
  shows "\<exists>trafs. chunk_trafs off parts = Inr trafs \<and> map length trafs = map traf_size parts"
  using assms
proof (induction parts arbitrary: off)
  case Nil
  then show ?case by simp
next
  case (Cons p ps)
  obtain tfdt part tdat where p: "p = (tfdt, part, tdat)" by (cases p) auto
  from Cons.prems have "\<forall>q\<in>set ps. traf_size q \<le> 0x7FFFFFFF" by simp
  from Cons.IH [OF this, of "off + length tdat"] obtain trafs where
    r: "chunk_trafs (off + length tdat) ps = Inr trafs"
    and l: "map length trafs = map traf_size ps" by blast
  from Cons.prems have "traf_size (tfdt, part, tdat) \<le> 0x7FFFFFFF" by (simp add: p)
  then show ?case using r l
    by (simp add: p tag_def Let_def traf_size_def)
qed

lemma elem_le_sum_list: "x \<in> set xs \<Longrightarrow> (x::nat) \<le> sum_list xs"
  by (induction xs) auto

lemma chunk_succeeds:
  assumes sup: "\<forall>t\<in>set (tracks m). cache t \<noteq> [] \<longrightarrow>
      ttype t = ''mp4a'' \<or> ttype t = ''mp3'' \<or> ttype t = ''avc1'' \<or> ttype t = ''vp6f''"
    and size: "76 * length (tracks m) + 8 * length (pending m)
                 + length (sample_data (pending m)) \<le> 2 ^ 30"
  shows "\<exists>m'. chunk m = Inr m'"
proof -
  from chunk_tracks_ok [OF sup, of 0] obtain ts' parts len where
    t: "chunk_tracks 0 (tracks m) = Inr (ts', parts, len)"
    and s: "sum_list (map traf_size parts)
              \<le> 76 * length (tracks m) + 8 * length (pending m)"
    by (auto simp: pending_def)
  have "\<forall>p\<in>set parts. traf_size p \<le> sum_list (map traf_size parts)"
    by (auto intro: elem_le_sum_list)
  with s size have "\<forall>p\<in>set parts. traf_size p \<le> 0x7FFFFFFF" by fastforce
  from chunk_trafs_ok [OF this] obtain trafs where
    f: "chunk_trafs (8 + length (moofHeader_of (chunkIndex m + 1)) + 8 + len) parts = Inr trafs"
    and l: "map length trafs = map traf_size parts" by blast
  have "length (concat trafs) = sum_list (map length trafs)" by (simp add: length_concat)
  with l s size have cl: "length (concat trafs) \<le> 2 ^ 30" by simp
  have "\<exists>moof. tag ''moof'' (A (U8 (moofHeader_of (chunkIndex m + 1)) # map U8 trafs)) = Inr moof"
    using cl by (simp add: tag_def Let_def moofHeader_bytes)
  moreover
  have "flatten (A (map (\<lambda>(tfdt, part, tdat). U8 tdat) parts)) = sample_data (pending m)"
    using chunk_tracks_Inr [OF t]
    by (simp only: flatten_tdats sample_data_pending pending_def)
  with size have "\<exists>mdat. tag ''mdat'' (A (map (\<lambda>(tfdt, part, tdat). U8 tdat) parts)) = Inr mdat"
    by (simp add: tag_def Let_def)
  ultimately show ?thesis using t f
    by (auto simp: chunk_def Let_def)
qed

lemma length_encoders [simp]:
  "length (encodeUint16 n) = 2" "length (encodeFloat x) = 4" "length (encodeFloat16 x) = 2"
  "length (encodeLang s) = 2"
  by (simp_all add: encodeUint16_def encodeFloat_def encodeFloat16_def encodeLang_def)

lemma codecInfo_of_ok:
  assumes "header_ready t"
  shows "\<exists>ci a. codecInfo_of t = Inr (ci, a) \<and> length ci \<le> 2 ^ 21"
  using assms
  by (auto simp: header_ready_def codecInfo_of_def tag_def Let_def split: list.splits)

lemma trak_of_ok:
  assumes "length ci \<le> 2 ^ 21"
  shows "\<exists>trak. trak_of i t ci a = Inr trak \<and> length trak \<le> 2 ^ 22"
  using assms
  by (cases a) (simp_all add: trak_of_def tag_def Let_def)

lemma header_traks_ok:
  assumes "\<forall>t\<in>set ts. header_ready t"
  shows "\<exists>traks. header_traks i ts = Inr traks \<and> length (concat traks) \<le> 2 ^ 22 * length ts"
  using assms
proof (induction ts arbitrary: i)
  case Nil
  then show ?case by simp
next
  case (Cons t ts)
  from Cons.prems have "header_ready t" by simp
  from codecInfo_of_ok [OF this] obtain ci a where
    c: "codecInfo_of t = Inr (ci, a)" and l: "length ci \<le> 2 ^ 21" by blast
  from trak_of_ok [OF l, of i t a] obtain trak where
    k: "trak_of i t ci a = Inr trak" and kl: "length trak \<le> 2 ^ 22" by blast
  from Cons.prems have "\<forall>t\<in>set ts. header_ready t" by simp
  from Cons.IH [OF this, of "Suc i"] obtain traks where
    r: "header_traks (Suc i) ts = Inr traks"
    and rl: "length (concat traks) \<le> 2 ^ 22 * length ts" by blast
  show ?case using c k r kl rl by simp
qed

lemma generateHeader_succeeds:
  assumes "\<forall>t\<in>set (tracks m). header_ready t" and "length (tracks m) \<le> 256"
  shows "\<exists>m'. generateHeader m = Inr m'"
proof -
  from header_traks_ok [OF assms(1), of 0] obtain traks where
    r: "header_traks 0 (tracks m) = Inr traks"
    and rl: "length (concat traks) \<le> 2 ^ 22 * length (tracks m)" by blast
  have "2 ^ 22 * length (tracks m) \<le> 2 ^ 22 * (256::nat)"
    using assms(2) by (intro mult_le_mono2)
  with rl have "length (concat traks) \<le> 2 ^ 30" by simp
  then have "\<exists>moov. tag ''moov'' (A [moovHeader (length (tracks m)), A (map U8 traks),
      U8 mvexAndUdat]) = Inr moov"
    by (simp add: tag_def Let_def moovHeader_def mvexAndUdat_def)
  with r show ?thesis by (auto simp: generateHeader_def Let_def)
qed

section \<open>Steps of packet intake\<close>

lemma pending_update:
  assumes "\<forall>t\<in>set ts. cache t = []" and "i < length ts"
  shows "concat (map cache (ts[i := u])) = cache u"
  using assms
proof (induction ts arbitrary: i)
  case Nil
  then show ?case by simp
next
  case (Cons t ts)
  then show ?case by (cases i) auto
qed

lemma push_after_emit:
  assumes "\<forall>t\<in>set (tracks m1). cache t = []" and "cache_push tid c m1 = Inr m2"
  shows "pending m2 = [c]" "ondata m2 = ondata m1" "chunkIndex m2 = chunkIndex m1"
    "state m2 = state m1" "cachedPackets m2 = cachedPackets m1"
  using assms by (auto simp: cache_push_Inr pending_def pending_update)

lemma chunk_Inr_fields:
  assumes "chunk m = Inr m1"
  shows "\<forall>t\<in>set (tracks m1). cache t = []" "cachedPackets m1 = 0" "state m1 = state m"
    "chunkIndex m1 = chunkIndex m + 1" "videoTrackId m1 = videoTrackId m"
    "audioTrackId m1 = audioTrackId m" "waitForAdditionalData m1 = waitForAdditionalData m"
  using chunk_Inr [OF assms] by auto

lemma generateHeader_Inr_fields:
  assumes "generateHeader m = Inr m1"
  shows "\<forall>t\<in>set (tracks m1). cache t = []" "cachedPackets m1 = 0" "state m1 = 1"
    "chunkIndex m1 = chunkIndex m" "videoTrackId m1 = videoTrackId m"
    "audioTrackId m1 = audioTrackId m" "waitForAdditionalData m1 = waitForAdditionalData m"
    "\<exists>h. ondata m1 = ondata m @ [h] \<and> is_header h \<and> \<not> is_fragment h"
  using generateHeader_Inr [OF assms] by auto

lemma pushVideo_flush:
  assumes "v_frameType (parseVideodata d) = 1"
    and "v_codecId (parseVideodata d) = 4 \<or> v_codecId (parseVideodata d) = 7"
    and "cachedPackets m \<noteq> 0"
    and "state m \<noteq> 0 \<or> v_codecId (parseVideodata d) = 4 \<or> v_packetType (parseVideodata d) = Some 0"
  shows "pushVideo d ts m =
     ebind (chunk m) (\<lambda>m1.
     ebind (cache_push (videoTrackId m1) \<lparr> packet = VideoP (parseVideodata d), timestamp = ts \<rparr> m1)
       (\<lambda>m2. Inr (m2 \<lparr> cachedPackets := cachedPackets m2 + 1 \<rparr>)))"
  using assms
  by (auto simp: pushVideo_def Let_def VP6_VIDEO_CODEC_ID_def AVC_VIDEO_CODEC_ID_def)

lemma pushVideo_header:
  assumes "v_codecId (parseVideodata d) = 7" and "v_packetType (parseVideodata d) \<noteq> Some 0"
    and "state m = 0"
  shows "pushVideo d ts m =
     ebind (generateHeader m) (\<lambda>m1.
     ebind (cache_push (videoTrackId m1) \<lparr> packet = VideoP (parseVideodata d), timestamp = ts \<rparr> m1)
       (\<lambda>m2. Inr (m2 \<lparr> cachedPackets := cachedPackets m2 + 1 \<rparr>)))"
proof (cases "generateHeader m")
  case (Inl e)
  with assms show ?thesis
    by (simp add: pushVideo_def Let_def VP6_VIDEO_CODEC_ID_def AVC_VIDEO_CODEC_ID_def)
next
  case (Inr m1)
  from generateHeader_Inr_fields(2) [OF Inr] assms Inr show ?thesis
    by (simp add: pushVideo_def Let_def VP6_VIDEO_CODEC_ID_def AVC_VIDEO_CODEC_ID_def)
qed

lemma pushVideo_plain:
  assumes "v_codecId (parseVideodata d) = 4 \<or> v_codecId (parseVideodata d) = 7"
    and "v_frameType (parseVideodata d) \<noteq> 1 \<or> cachedPackets m = 0"
    and "state m \<noteq> 0 \<or> v_codecId (parseVideodata d) = 4 \<or> v_packetType (parseVideodata d) = Some 0"
  shows "pushVideo d ts m =
     ebind (cache_push (videoTrackId m) \<lparr> packet = VideoP (parseVideodata d), timestamp = ts \<rparr> m)
       (\<lambda>m2. Inr (m2 \<lparr> cachedPackets := cachedPackets m2 + 1 \<rparr>))"
  using assms
  by (auto simp: pushVideo_def Let_def VP6_VIDEO_CODEC_ID_def AVC_VIDEO_CODEC_ID_def)

lemma new_avc: "MP4Mux_new md_avc = Inr mux_avc"
  by (simp add: MP4Mux_new_def md_avc_def mux_avc_def new_track_def trackinfo_step_def)

lemma new_av: "MP4Mux_new md_av = Inr mux_av"
  by (simp add: MP4Mux_new_def md_av_def mux_av_def new_track_def trackinfo_step_def)

lemmas packet_defs = avc_config_def avc_key_def avc_inter_def aac_config_def aac_raw_def
  vp6_inter_def vp6_key_def

lemma chunk_keeps_headers:
  assumes "chunk m = Inr m1"
  shows "state m1 = state m" "headers m1 = headers m"
  using chunk_Inr [OF assms] by (auto simp: headers_def)

lemma cache_push_keeps:
  assumes "cache_push tid c m = Inr m1"
  shows "state m1 = state m" "ondata m1 = ondata m" "cachedPackets m1 = cachedPackets m"
    "chunkIndex m1 = chunkIndex m" "headers m1 = headers m"
  using assms by (auto simp: cache_push_Inr headers_def)

lemma pushAudio_header:
  assumes "a_codecId (parseAudiodata d) = 10" and "a_packetType (parseAudiodata d) \<noteq> Some 0"
    and "state m = 0"
  shows "pushAudio d ts m =
     ebind (generateHeader m) (\<lambda>m1.
     ebind (cache_push (audioTrackId m1) \<lparr> packet = AudioP (parseAudiodata d), timestamp = ts \<rparr> m1)
       (\<lambda>m2. Inr (m2 \<lparr> cachedPackets := cachedPackets m2 + 1 \<rparr>)))"
  using assms
  by (simp add: pushAudio_def Let_def MP3_SOUND_CODEC_ID_def AAC_SOUND_CODEC_ID_def)

lemma pushAudio_plain:
  assumes "a_codecId (parseAudiodata d) = 2 \<or> a_codecId (parseAudiodata d) = 10"
    and "state m \<noteq> 0 \<or> a_codecId (parseAudiodata d) = 2 \<or> a_packetType (parseAudiodata d) = Some 0"
  shows "pushAudio d ts m =
     ebind (cache_push (audioTrackId m) \<lparr> packet = AudioP (parseAudiodata d), timestamp = ts \<rparr> m)
       (\<lambda>m2. Inr (m2 \<lparr> cachedPackets := cachedPackets m2 + 1 \<rparr>))"
  using assms
  by (auto simp: pushAudio_def Let_def MP3_SOUND_CODEC_ID_def AAC_SOUND_CODEC_ID_def)

lemma run_append: "run (xs @ ys) m = ebind (run xs m) (run ys)"
  by (induction xs arbitrary: m) (simp_all add: ebind_def split: sum.splits)








lemma vp6_inter_parse:
  "v_codecId (parseVideodata vp6_inter) = 4" "v_frameType (parseVideodata vp6_inter) = 2"
  by (simp_all add: vp6_inter_def parseVideodata_def Let_def byte_num_def drop_bit_eq_div
      AVC_VIDEO_CODEC_ID_def VP6_VIDEO_CODEC_ID_def)

section \<open>The header transition\<close>

lemma cache_push_counted:
  "ebind (cache_push tid c m) (\<lambda>m2. Inr (m2 \<lparr> cachedPackets := cachedPackets m2 + 1 \<rparr>)) = Inr mc
     \<longleftrightarrow> 0 \<le> tid \<and> nat tid < length (tracks m) \<and> mc = with_cached tid c m"
  by (auto simp: ebind_eq_Inr cache_push_Inr with_cached_def)

lemma with_cached_fields:
  "state (with_cached tid c m) = state m" "ondata (with_cached tid c m) = ondata m"
  "headers (with_cached tid c m) = headers m" "chunkIndex (with_cached tid c m) = chunkIndex m"
  "cachedPackets (with_cached tid c m) = cachedPackets m + 1"
  by (simp_all add: with_cached_def headers_def)

lemma with_cached_pending:
  assumes "\<forall>t\<in>set (tracks m). cache t = []" and "0 \<le> tid" and "nat tid < length (tracks m)"
  shows "pending (with_cached tid c m) = [c]"
  using assms by (simp add: with_cached_def pending_def pending_update)

lemma chunk_length_tracks:
  assumes "chunk m = Inr m1"
  shows "length (tracks m1) = length (tracks m)"
  using chunk_Inr [OF assms] by auto

lemma deferred_config_push:
  assumes wait: "waitForAdditionalData m" and s0: "state m = 0"
    and pkt: "type = 8 \<and> a_codecId (parseAudiodata d) = 10
                \<and> a_packetType (parseAudiodata d) = Some 0
                \<and> tid = audioTrackId m
                \<and> c = \<lparr> packet = AudioP (parseAudiodata d), timestamp = ts \<rparr> \<and> \<not> key
            \<or> type = 9 \<and> v_codecId (parseVideodata d) = 7
                \<and> v_packetType (parseVideodata d) = Some 0
                \<and> tid = videoTrackId m
                \<and> c = \<lparr> packet = VideoP (parseVideodata d), timestamp = ts \<rparr>
                \<and> key = (v_frameType (parseVideodata d) = 1)"
    and pc: "pushPacket_cache type d ts m = Inr mc"
  shows "0 \<le> tid \<and> nat tid < length (tracks m)
     \<and> (\<exists>m1. (if key \<and> cachedPackets m \<noteq> 0 then chunk m = Inr m1 else m1 = m)
           \<and> mc = with_cached tid c m1)"
proof -
  from wait pkt have pc': "pushPacket_cache type d ts m
      = (if type = 8 then pushAudio d ts m else pushVideo d ts m)"
    by (auto simp: pushPacket_cache_def AUDIO_PACKET_def VIDEO_PACKET_def)
  show ?thesis
  proof (cases "type = 8")
    case True
    with pkt have "pushAudio d ts m = ebind (cache_push (audioTrackId m)
          \<lparr> packet = AudioP (parseAudiodata d), timestamp = ts \<rparr> m)
          (\<lambda>m2. Inr (m2 \<lparr> cachedPackets := cachedPackets m2 + 1 \<rparr>))"
      by (intro pushAudio_plain) auto
    with pc pc' True have "ebind (cache_push (audioTrackId m)
          \<lparr> packet = AudioP (parseAudiodata d), timestamp = ts \<rparr> m)
          (\<lambda>m2. Inr (m2 \<lparr> cachedPackets := cachedPackets m2 + 1 \<rparr>)) = Inr mc"
      by simp
    from this [unfolded cache_push_counted] True pkt show ?thesis by auto
  next
    case False
    with pkt have v: "v_codecId (parseVideodata d) = 7" "v_packetType (parseVideodata d) = Some 0"
      "tid = videoTrackId m" "c = \<lparr> packet = VideoP (parseVideodata d), timestamp = ts \<rparr>"
      "key = (v_frameType (parseVideodata d) = 1)"
      by auto
    from pc pc' False have pv: "pushVideo d ts m = Inr mc" by simp
    show ?thesis
    proof (cases "key \<and> cachedPackets m \<noteq> 0")
      case True
      with v have "pushVideo d ts m = ebind (chunk m) (\<lambda>m1.
           ebind (cache_push (videoTrackId m1)
                    \<lparr> packet = VideoP (parseVideodata d), timestamp = ts \<rparr> m1)
           (\<lambda>m2. Inr (m2 \<lparr> cachedPackets := cachedPackets m2 + 1 \<rparr>)))"
        by (intro pushVideo_flush) auto
      with pv have "ebind (chunk m) (\<lambda>m1.
           ebind (cache_push (videoTrackId m1)
                    \<lparr> packet = VideoP (parseVideodata d), timestamp = ts \<rparr> m1)
           (\<lambda>m2. Inr (m2 \<lparr> cachedPackets := cachedPackets m2 + 1 \<rparr>))) = Inr mc"
        by simp
      then obtain m1 where c: "chunk m = Inr m1"
        and p: "ebind (cache_push (videoTrackId m1)
                    \<lparr> packet = VideoP (parseVideodata d), timestamp = ts \<rparr> m1)
           (\<lambda>m2. Inr (m2 \<lparr> cachedPackets := cachedPackets m2 + 1 \<rparr>)) = Inr mc"
        unfolding ebind_eq_Inr [of "chunk m"] by blast
      from p [unfolded cache_push_counted] chunk_Inr_fields(5) [OF c] chunk_length_tracks [OF c]
        True c v
      show ?thesis by auto
    next
      case False
      with v have "pushVideo d ts m = ebind (cache_push (videoTrackId m)
                    \<lparr> packet = VideoP (parseVideodata d), timestamp = ts \<rparr> m)
           (\<lambda>m2. Inr (m2 \<lparr> cachedPackets := cachedPackets m2 + 1 \<rparr>))"
        by (intro pushVideo_plain) auto
      with pv have "ebind (cache_push (videoTrackId m)
                    \<lparr> packet = VideoP (parseVideodata d), timestamp = ts \<rparr> m)
           (\<lambda>m2. Inr (m2 \<lparr> cachedPackets := cachedPackets m2 + 1 \<rparr>)) = Inr mc"
        by simp
      from this [unfolded cache_push_counted] False v show ?thesis by auto
    qed
  qed
qed

lemma deferred_frame_push:
  assumes wait: "waitForAdditionalData m" and s0: "state m = 0"
    and pkt: "type = 8 \<and> a_codecId (parseAudiodata d) = 10
                \<and> a_packetType (parseAudiodata d) \<noteq> Some 0
                \<and> tid = audioTrackId m
                \<and> c = \<lparr> packet = AudioP (parseAudiodata d), timestamp = ts \<rparr>
            \<or> type = 9 \<and> v_codecId (parseVideodata d) = 7
                \<and> v_packetType (parseVideodata d) \<noteq> Some 0
                \<and> tid = videoTrackId m
                \<and> c = \<lparr> packet = VideoP (parseVideodata d), timestamp = ts \<rparr>"
    and pc: "pushPacket_cache type d ts m = Inr mc"
  shows "0 \<le> tid \<and> nat tid < length (tracks m)
     \<and> (\<exists>mh. generateHeader m = Inr mh \<and> mc = with_cached tid c mh)"
proof -
  from wait pkt have pc': "pushPacket_cache type d ts m
      = (if type = 8 then pushAudio d ts m else pushVideo d ts m)"
    by (auto simp: pushPacket_cache_def AUDIO_PACKET_def VIDEO_PACKET_def)
  have "\<exists>mh. generateHeader m = Inr mh
      \<and> ebind (cache_push tid c mh) (\<lambda>m2. Inr (m2 \<lparr> cachedPackets := cachedPackets m2 + 1 \<rparr>))
          = Inr mc \<and> tid = (if type = 8 then audioTrackId mh else videoTrackId mh)"
  proof (cases "type = 8")
    case True
    with pkt s0 have "pushAudio d ts m = ebind (generateHeader m) (\<lambda>m1.
         ebind (cache_push (audioTrackId m1) \<lparr> packet = AudioP (parseAudiodata d), timestamp = ts \<rparr> m1)
         (\<lambda>m2. Inr (m2 \<lparr> cachedPackets := cachedPackets m2 + 1 \<rparr>)))"
      by (intro pushAudio_header) auto
    with pc pc' True have "ebind (generateHeader m) (\<lambda>m1.
         ebind (cache_push (audioTrackId m1) \<lparr> packet = AudioP (parseAudiodata d), timestamp = ts \<rparr> m1)
         (\<lambda>m2. Inr (m2 \<lparr> cachedPackets := cachedPackets m2 + 1 \<rparr>))) = Inr mc"
      by simp
    then obtain mh where g: "generateHeader m = Inr mh"
      and p: "ebind (cache_push (audioTrackId mh)
                 \<lparr> packet = AudioP (parseAudiodata d), timestamp = ts \<rparr> mh)
         (\<lambda>m2. Inr (m2 \<lparr> cachedPackets := cachedPackets m2 + 1 \<rparr>)) = Inr mc"
      unfolding ebind_eq_Inr [of "generateHeader m"] by blast
    from generateHeader_Inr_fields(6) [OF g] g p True pkt show ?thesis by auto
  next
    case False
    with pkt s0 have "pushVideo d ts m = ebind (generateHeader m) (\<lambda>m1.
         ebind (cache_push (videoTrackId m1) \<lparr> packet = VideoP (parseVideodata d), timestamp = ts \<rparr> m1)
         (\<lambda>m2. Inr (m2 \<lparr> cachedPackets := cachedPackets m2 + 1 \<rparr>)))"
      by (intro pushVideo_header) auto
    with pc pc' False have "ebind (generateHeader m) (\<lambda>m1.
         ebind (cache_push (videoTrackId m1) \<lparr> packet = VideoP (parseVideodata d), timestamp = ts \<rparr> m1)
         (\<lambda>m2. Inr (m2 \<lparr> cachedPackets := cachedPackets m2 + 1 \<rparr>))) = Inr mc"
      by simp
    then obtain mh where g: "generateHeader m = Inr mh"
      and p: "ebind (cache_push (videoTrackId mh)
                 \<lparr> packet = VideoP (parseVideodata d), timestamp = ts \<rparr> mh)
         (\<lambda>m2. Inr (m2 \<lparr> cachedPackets := cachedPackets m2 + 1 \<rparr>)) = Inr mc"
      unfolding ebind_eq_Inr [of "generateHeader m"] by blast
    from generateHeader_Inr_fields(5) [OF g] g p False pkt show ?thesis by auto
  qed
  then obtain mh where g: "generateHeader m = Inr mh"
    and p: "ebind (cache_push tid c mh) (\<lambda>m2. Inr (m2 \<lparr> cachedPackets := cachedPackets m2 + 1 \<rparr>))
          = Inr mc"
    by blast
  from generateHeader_Inr [OF g] have "length (tracks mh) = length (tracks m)" by auto
  with p [unfolded cache_push_counted] g show ?thesis by auto
qed

text \<open>
  C1, amended. On the deferred-header path, while the muxer is still uninitialised
  (\<open>state = 0\<close>), let \<open>pushPacket\<close> deliver an AAC or AVC packet and return. If the packet
  type is not 0 (a coded frame, not the codec configuration), the header is emitted before
  the packet is cached: the header is the one buffer the sink receives in the call, it
  empties every cache, and then the packet is appended to its track, so that after the call
  the state is 1 and the packet is the only pending sample, counted once. If the packet type
  is 0 (a codec-configuration sample), no header is emitted and the muxer stays
  uninitialised; the sample is appended to the cache of its track and counted. Such a call
  can still emit fragments: an AVC packet of type 0 that is a key frame flushes the pending
  samples before it is cached, and the ceiling flush follows the caching; without either,
  the call gives the sink nothing and changes only that cache and the counter. Over any
  sequence of calls on a constructed muxer the header is emitted at most once: the number
  of headers the sink received is \<open>state\<close>, which is 0 or 1.
\<close>

theorem deferred_header_trigger:
  assumes wait: "waitForAdditionalData m" and s0: "state m = 0"
    and pkt: "type = 8 \<and> a_codecId (parseAudiodata d) = 10 \<and> pt = a_packetType (parseAudiodata d)
                \<and> tid = audioTrackId m
                \<and> c = \<lparr> packet = AudioP (parseAudiodata d), timestamp = ts \<rparr> \<and> \<not> key
            \<or> type = 9 \<and> v_codecId (parseVideodata d) = 7 \<and> pt = v_packetType (parseVideodata d)
                \<and> tid = videoTrackId m
                \<and> c = \<lparr> packet = VideoP (parseVideodata d), timestamp = ts \<rparr>
                \<and> key = (v_frameType (parseVideodata d) = 1)"
    and ok: "pushPacket type d ts m = Inr m'"
  shows "0 \<le> tid \<and> nat tid < length (tracks m)
     \<and> (pt \<noteq> Some 0 \<longrightarrow>
          (\<exists>h. is_header h
             \<and> m' = with_cached tid c
                  (m \<lparr> tracks := map (\<lambda>t. t \<lparr> cache := [] \<rparr>) (tracks m), cachedPackets := 0,
                       ondata := ondata m @ [h], filePos := filePos m + length h, state := 1 \<rparr>)
             \<and> ondata m' = ondata m @ [h])
          \<and> state m' = 1 \<and> cachedPackets m' = 1 \<and> pending m' = [c]
          \<and> cache (tracks m' ! nat tid) = [c])
     \<and> (pt = Some 0 \<longrightarrow>
          state m' = 0 \<and> headers m' = headers m
          \<and> (\<exists>m1. (if key \<and> cachedPackets m \<noteq> 0 then chunk m = Inr m1 else m1 = m)
                \<and> (if 5 \<le> cachedPackets m1 + 1 then chunk (with_cached tid c m1) = Inr m'
                    else m' = with_cached tid c m1))
          \<and> (\<not> (key \<and> cachedPackets m \<noteq> 0) \<and> cachedPackets m + 1 < 5 \<longrightarrow>
                ondata m' = ondata m
                \<and> tracks m' = (tracks m)[nat tid :=
                     (tracks m ! nat tid) \<lparr> cache := cache (tracks m ! nat tid) @ [c] \<rparr>]))
     \<and> (\<forall>md m0 cs mf. MP4Mux_new md = Inr m0 \<and> run cs m0 = Inr mf \<longrightarrow>
          length (headers mf) = state mf \<and> state mf \<le> 1)"
proof -
  from ok obtain mc where pc: "pushPacket_cache type d ts m = Inr mc"
    and fin: "(if MAX_PACKETS_IN_CHUNK \<le> cachedPackets mc then chunk mc else Inr mc) = Inr m'"
    by (auto simp: pushPacket_def ebind_eq_Inr)
  have tid: "0 \<le> tid \<and> nat tid < length (tracks m)"
  proof (cases "pt = Some 0")
    case True
    with pkt deferred_config_push [OF wait s0 _ pc, of tid c key] show ?thesis by auto
  next
    case False
    with pkt deferred_frame_push [OF wait s0 _ pc, of tid c] show ?thesis by auto
  qed
  have frame: "(\<exists>h. is_header h
             \<and> m' = with_cached tid c
                  (m \<lparr> tracks := map (\<lambda>t. t \<lparr> cache := [] \<rparr>) (tracks m), cachedPackets := 0,
                       ondata := ondata m @ [h], filePos := filePos m + length h, state := 1 \<rparr>)
             \<and> ondata m' = ondata m @ [h])
          \<and> state m' = 1 \<and> cachedPackets m' = 1 \<and> pending m' = [c]
          \<and> cache (tracks m' ! nat tid) = [c]" if nz: "pt \<noteq> Some 0"
  proof -
    from nz pkt deferred_frame_push [OF wait s0 _ pc, of tid c]
    obtain mh where g: "generateHeader m = Inr mh" and mc: "mc = with_cached tid c mh"
      by auto
    from generateHeader_Inr [OF g] obtain h where
      mh: "mh = m \<lparr> tracks := map (\<lambda>t. t \<lparr> cache := [] \<rparr>) (tracks m), cachedPackets := 0,
               ondata := ondata m @ [h], filePos := filePos m + length h, state := 1 \<rparr>"
      and h: "is_header h"
      by blast
    have "cachedPackets mc = 1" by (simp add: mc mh with_cached_def)
    with fin have m': "m' = mc" by (simp add: MAX_PACKETS_IN_CHUNK_def)
    have p: "pending m' = [c]"
      unfolding m' mc using tid by (intro with_cached_pending) (simp_all add: mh)
    have "cache (tracks m' ! nat tid) = [c]"
      using tid by (simp add: m' mc mh with_cached_def)
    with p h show ?thesis by (auto simp: m' mc mh with_cached_def)
  qed
  have config: "state m' = 0 \<and> headers m' = headers m
          \<and> (\<exists>m1. (if key \<and> cachedPackets m \<noteq> 0 then chunk m = Inr m1 else m1 = m)
                \<and> (if 5 \<le> cachedPackets m1 + 1 then chunk (with_cached tid c m1) = Inr m'
                    else m' = with_cached tid c m1))
          \<and> (\<not> (key \<and> cachedPackets m \<noteq> 0) \<and> cachedPackets m + 1 < 5 \<longrightarrow>
                ondata m' = ondata m
                \<and> tracks m' = (tracks m)[nat tid :=
                     (tracks m ! nat tid) \<lparr> cache := cache (tracks m ! nat tid) @ [c] \<rparr>])"
    if z: "pt = Some 0"
  proof -
    from z pkt deferred_config_push [OF wait s0 _ pc, of tid c key]
    obtain m1 where k: "if key \<and> cachedPackets m \<noteq> 0 then chunk m = Inr m1 else m1 = m"
      and mc: "mc = with_cached tid c m1"
      by auto
    from k s0 have s1: "state m1 = 0" "headers m1 = headers m"
      by (auto split: if_splits dest: chunk_keeps_headers)
    from fin have e: "if 5 \<le> cachedPackets m1 + 1 then chunk (with_cached tid c m1) = Inr m'
                    else m' = with_cached tid c m1"
      by (simp add: mc with_cached_fields MAX_PACKETS_IN_CHUNK_def split: if_splits)
    from e s1 have "state m' = 0" "headers m' = headers m"
      by (auto simp: with_cached_fields split: if_splits dest: chunk_keeps_headers)
    moreover from k e have "\<not> (key \<and> cachedPackets m \<noteq> 0) \<and> cachedPackets m + 1 < 5 \<longrightarrow>
                ondata m' = ondata m
                \<and> tracks m' = (tracks m)[nat tid :=
                     (tracks m ! nat tid) \<lparr> cache := cache (tracks m ! nat tid) @ [c] \<rparr>]"
      by (auto simp: with_cached_def)
    ultimately show ?thesis using k e by blast
  qed
  have once: "\<forall>md m0 cs mf. MP4Mux_new md = Inr m0 \<and> run cs m0 = Inr mf \<longrightarrow>
          length (headers mf) = state mf \<and> state mf \<le> 1"
  proof (intro allI impI)
    fix md m0 cs mf
    assume "MP4Mux_new md = Inr m0 \<and> run cs m0 = Inr mf"
    then have "log_ok mf" by (blast intro: log_ok_new log_ok_run)
    then show "length (headers mf) = state mf \<and> state mf \<le> 1" by (simp add: log_ok_def)
  qed
  from tid frame config once show ?thesis by blast
qed

section \<open>Key frames\<close>

text \<open>
  C2, amended. Let \<open>pushPacket\<close> deliver a VP6 or AVC key frame and return. If the pending
  count is nonzero and the call emits no header (the muxer is initialised, or it is on the
  deferred path and the packet is VP6 or an AVC packet of type 0), the pending samples are
  flushed first: exactly one fragment, with the next sequence number and a sample-data box
  holding the payloads of all pending samples, is given to the sink, and after the call the
  key frame is the only pending sample. If instead the muxer is uninitialised and the call
  emits the header (not deferred, or an AVC packet of type other than 0), the header emission
  clears the caches and the pending count, no fragment is emitted, and the key frame is
  again the only pending sample after the call.
\<close>

theorem keyframe_flush:
  assumes kf: "v_frameType (parseVideodata d) = 1"
    and codec: "v_codecId (parseVideodata d) = 4 \<or> v_codecId (parseVideodata d) = 7"
    and ok: "pushPacket 9 d ts m = Inr m'"
  shows "(cachedPackets m \<noteq> 0
          \<and> (state m \<noteq> 0 \<or> waitForAdditionalData m
                \<and> (v_codecId (parseVideodata d) = 4 \<or> v_packetType (parseVideodata d) = Some 0))
        \<longrightarrow> (\<exists>m1 moof mdat. chunk m = Inr m1
              \<and> ondata m' = ondata m @ [moof @ mdat]
              \<and> is_fragment (moof @ mdat)
              \<and> fragment_sequence (moof @ mdat) = encodeInt32 (int (chunkIndex m + 1))
              \<and> tag ''mdat'' (U8 (sample_data (pending m))) = Inr mdat
              \<and> chunkIndex m' = chunkIndex m + 1
              \<and> pending m' = [\<lparr> packet = VideoP (parseVideodata d), timestamp = ts \<rparr>]
              \<and> cachedPackets m' = 1))
     \<and> (state m = 0 \<and> (\<not> waitForAdditionalData m
                \<or> v_codecId (parseVideodata d) = 7 \<and> v_packetType (parseVideodata d) \<noteq> Some 0)
        \<longrightarrow> (\<exists>h. ondata m' = ondata m @ [h] \<and> is_header h \<and> chunkIndex m' = chunkIndex m
              \<and> pending m' = [\<lparr> packet = VideoP (parseVideodata d), timestamp = ts \<rparr>]
              \<and> cachedPackets m' = 1))"
proof (intro conjI impI)
  let ?c = "\<lparr> packet = VideoP (parseVideodata d), timestamp = ts \<rparr>"
  from ok obtain mc where pc: "pushPacket_cache 9 d ts m = Inr mc"
    and fin: "(if MAX_PACKETS_IN_CHUNK \<le> cachedPackets mc then chunk mc else Inr mc) = Inr m'"
    by (auto simp: pushPacket_def ebind_eq_Inr)
  {
    assume a: "cachedPackets m \<noteq> 0 \<and> (state m \<noteq> 0 \<or> waitForAdditionalData m
        \<and> (v_codecId (parseVideodata d) = 4 \<or> v_packetType (parseVideodata d) = Some 0))"
    then have "pushPacket_cache 9 d ts m = pushVideo d ts m"
      by (auto simp: pushPacket_cache_def AUDIO_PACKET_def VIDEO_PACKET_def)
    also have "\<dots> = ebind (chunk m) (\<lambda>m1. ebind (cache_push (videoTrackId m1) ?c m1)
       (\<lambda>m2. Inr (m2 \<lparr> cachedPackets := cachedPackets m2 + 1 \<rparr>)))"
      using a kf codec by (intro pushVideo_flush) auto
    finally have "ebind (chunk m) (\<lambda>m1. ebind (cache_push (videoTrackId m1) ?c m1)
       (\<lambda>m2. Inr (m2 \<lparr> cachedPackets := cachedPackets m2 + 1 \<rparr>))) = Inr mc"
      using pc by simp
    then obtain m1 m2 where c: "chunk m = Inr m1"
      and p: "cache_push (videoTrackId m1) ?c m1 = Inr m2"
      and mc: "mc = m2 \<lparr> cachedPackets := cachedPackets m2 + 1 \<rparr>"
      by (auto simp: ebind_eq_Inr)
    note f = chunk_Inr_fields [OF c]
    note q = push_after_emit [OF f(1) p]
    from mc q f have "cachedPackets mc = 1" by simp
    with fin have m': "m' = mc" by (simp add: MAX_PACKETS_IN_CHUNK_def)
    from chunk_Inr [OF c] obtain moof mdat where
      o: "ondata m1 = ondata m @ [moof @ mdat]" "is_fragment (moof @ mdat)"
        "fragment_sequence (moof @ mdat) = encodeInt32 (int (chunkIndex m + 1))"
        "tag ''mdat'' (U8 (sample_data (pending m))) = Inr mdat"
      by auto
    show "\<exists>m1 moof mdat. chunk m = Inr m1
              \<and> ondata m' = ondata m @ [moof @ mdat]
              \<and> is_fragment (moof @ mdat)
              \<and> fragment_sequence (moof @ mdat) = encodeInt32 (int (chunkIndex m + 1))
              \<and> tag ''mdat'' (U8 (sample_data (pending m))) = Inr mdat
              \<and> chunkIndex m' = chunkIndex m + 1
              \<and> pending m' = [?c]
              \<and> cachedPackets m' = 1"
      using c o q f by (auto simp: m' mc pending_def)
  }
  {
    assume a: "state m = 0 \<and> (\<not> waitForAdditionalData m
        \<or> v_codecId (parseVideodata d) = 7 \<and> v_packetType (parseVideodata d) \<noteq> Some 0)"
    have "\<exists>m1 m2. generateHeader m = Inr m1 \<and> cache_push (videoTrackId m1) ?c m1 = Inr m2
        \<and> mc = m2 \<lparr> cachedPackets := cachedPackets m2 + 1 \<rparr>"
    proof (cases "waitForAdditionalData m")
      case False
      with a pc obtain m1 where g: "generateHeader m = Inr m1" and v: "pushVideo d ts m1 = Inr mc"
        by (auto simp: pushPacket_cache_def AUDIO_PACKET_def VIDEO_PACKET_def ebind_eq_Inr)
      note f = generateHeader_Inr_fields [OF g]
      have "pushVideo d ts m1 = ebind (cache_push (videoTrackId m1) ?c m1)
           (\<lambda>m2. Inr (m2 \<lparr> cachedPackets := cachedPackets m2 + 1 \<rparr>))"
        using codec f by (intro pushVideo_plain) auto
      with v g show ?thesis by (auto simp: ebind_eq_Inr)
    next
      case True
      with a have "pushPacket_cache 9 d ts m = pushVideo d ts m"
        by (auto simp: pushPacket_cache_def AUDIO_PACKET_def VIDEO_PACKET_def)
      also have "\<dots> = ebind (generateHeader m) (\<lambda>m1. ebind (cache_push (videoTrackId m1) ?c m1)
           (\<lambda>m2. Inr (m2 \<lparr> cachedPackets := cachedPackets m2 + 1 \<rparr>)))"
        using a True by (intro pushVideo_header) auto
      finally have "ebind (generateHeader m) (\<lambda>m1. ebind (cache_push (videoTrackId m1) ?c m1)
           (\<lambda>m2. Inr (m2 \<lparr> cachedPackets := cachedPackets m2 + 1 \<rparr>))) = Inr mc"
        using pc by simp
      then show ?thesis by (auto simp: ebind_eq_Inr)
    qed
    then obtain m1 m2 where g: "generateHeader m = Inr m1"
      and p: "cache_push (videoTrackId m1) ?c m1 = Inr m2"
      and mc: "mc = m2 \<lparr> cachedPackets := cachedPackets m2 + 1 \<rparr>" by blast
    note f = generateHeader_Inr_fields [OF g]
    note q = push_after_emit [OF f(1) p]
    from mc q f have "cachedPackets mc = 1" by simp
    with fin have m': "m' = mc" by (simp add: MAX_PACKETS_IN_CHUNK_def)
    show "\<exists>h. ondata m' = ondata m @ [h] \<and> is_header h \<and> chunkIndex m' = chunkIndex m
              \<and> pending m' = [?c] \<and> cachedPackets m' = 1"
      using f q by (auto simp: m' mc pending_def)
  }
qed

section \<open>The chunking ceiling\<close>


section \<open>Concrete runs\<close>

lemma avc_parse:
  "v_codecId (parseVideodata avc_config) = 7" "v_packetType (parseVideodata avc_config) = Some 0"
  "v_frameType (parseVideodata avc_config) = 1"
  "v_codecId (parseVideodata avc_key) = 7" "v_packetType (parseVideodata avc_key) = Some 1"
  "v_frameType (parseVideodata avc_key) = 1"
  by (simp_all add: avc_config_def avc_key_def parseVideodata_def Let_def byte_num_def byte_at_def
      drop_bit_eq_div AVC_VIDEO_CODEC_ID_def VP6_VIDEO_CODEC_ID_def)

lemma aac_parse:
  "a_codecId (parseAudiodata aac_config) = 10" "a_packetType (parseAudiodata aac_config) = Some 0"
  "a_codecId (parseAudiodata aac_raw) = 10" "a_packetType (parseAudiodata aac_raw) = Some 1"
  by (simp_all add: aac_config_def aac_raw_def parseAudiodata_def Let_def byte_num_def byte_at_def
      drop_bit_eq_div AAC_SOUND_CODEC_ID_def MP3_SOUND_CODEC_ID_def)

lemma avc_session:
  "\<exists>m1 m2 m3 m4 m5 mf.
      pushPacket 9 avc_config (Num 0) mux_avc = Inr m1
      \<and> waitForAdditionalData m1 \<and> state m1 = 0 \<and> cachedPackets m1 = 1 \<and> ondata m1 = []
      \<and> pushPacket 9 avc_key (Num 33) m1 = Inr m2
      \<and> state m2 = 1 \<and> cachedPackets m2 = 1 \<and> chunkIndex m2 = 0 \<and> fragments m2 = []
      \<and> flush m2 = Inr mf
      \<and> pushPacket 9 avc_inter (Num 66) m2 = Inr m3
      \<and> state m3 = 1 \<and> cachedPackets m3 = 2
      \<and> pushPacket 9 avc_key (Num 100) m3 = Inr m4
      \<and> flush m4 = Inr m5 \<and> chunkIndex m5 = 2"
  by (simp add: eval_defs mux_avc_def packet_defs fragments_def is_fragment_def)

lemma av_config_pushes:
  "waitForAdditionalData mux_av" "state mux_av = 0"
  "outcome state (pushPacket 8 aac_config (Num 0) mux_av) = Inr 0"
  "outcome ondata (pushPacket 8 aac_config (Num 0) mux_av) = Inr []"
  "outcome state (pushPacket 9 avc_config (Num 0) mux_av) = Inr 0"
  "outcome ondata (pushPacket 9 avc_config (Num 0) mux_av) = Inr []"
  by (simp_all add: eval_defs mux_av_def packet_defs outcome_def)

text \<open>
  C1, as stated, fails: on the deferred path an AAC or AVC codec-configuration sample
  (packet type 0) pushed to an uninitialised muxer returns with the state still 0 and with
  nothing given to the sink.
\<close>

theorem config_sample_counterexample:
  "waitForAdditionalData mux_av \<and> state mux_av = 0
   \<and> a_codecId (parseAudiodata aac_config) = 10
   \<and> a_packetType (parseAudiodata aac_config) = Some 0
   \<and> outcome state (pushPacket 8 aac_config (Num 0) mux_av) = Inr 0
   \<and> outcome ondata (pushPacket 8 aac_config (Num 0) mux_av) = Inr []
   \<and> v_codecId (parseVideodata avc_config) = 7
   \<and> v_packetType (parseVideodata avc_config) = Some 0
   \<and> outcome state (pushPacket 9 avc_config (Num 0) mux_av) = Inr 0
   \<and> outcome ondata (pushPacket 9 avc_config (Num 0) mux_av) = Inr []"
  by (simp add: av_config_pushes aac_parse avc_parse)

lemma av_config_session:
  "\<exists>a1 a2. pushPacket 8 aac_config (Num 0) mux_av = Inr a1
     \<and> waitForAdditionalData a1 \<and> state a1 = 0 \<and> cachedPackets a1 = 1 \<and> chunkIndex a1 = 0
     \<and> ondata a1 = [] \<and> videoTrackId a1 = 0
     \<and> pushPacket 9 avc_config (Num 0) a1 = Inr a2"
  by (simp add: eval_defs mux_av_def packet_defs)

text \<open>
  The amended C1 on the AVC configuration: the sequence header is cached without a header
  emission, the key frame that follows emits the header, once, and is the only pending
  sample after it. On the configuration with an AVC and an AAC track, the AVC sequence
  header that follows the AAC configuration sample flushes it in a fragment while the muxer
  is still uninitialised, and is cached.
\<close>

theorem deferred_header_trigger_witness:
  "(\<exists>m1 m2 h. waitForAdditionalData mux_avc \<and> state mux_avc = 0
      \<and> v_packetType (parseVideodata avc_config) = Some 0
      \<and> pushPacket 9 avc_config (Num 0) mux_avc = Inr m1
      \<and> state m1 = 0 \<and> ondata m1 = []
      \<and> pending m1 = [\<lparr> packet = VideoP (parseVideodata avc_config), timestamp = Num 0 \<rparr>]
      \<and> v_packetType (parseVideodata avc_key) \<noteq> Some 0
      \<and> pushPacket 9 avc_key (Num 33) m1 = Inr m2
      \<and> state m2 = 1 \<and> cachedPackets m2 = 1 \<and> ondata m2 = [h] \<and> is_header h
      \<and> pending m2 = [\<lparr> packet = VideoP (parseVideodata avc_key), timestamp = Num 33 \<rparr>]
      \<and> MP4Mux_new md_avc = Inr mux_avc
      \<and> run [PushPacket 9 avc_config (Num 0), PushPacket 9 avc_key (Num 33)] mux_avc = Inr m2
      \<and> length (headers m2) = 1)
   \<and> (\<exists>a1 a2 f. pushPacket 8 aac_config (Num 0) mux_av = Inr a1
      \<and> pushPacket 9 avc_config (Num 0) a1 = Inr a2
      \<and> state a2 = 0 \<and> headers a2 = [] \<and> ondata a2 = [f] \<and> is_fragment f
      \<and> pending a2 = [\<lparr> packet = VideoP (parseVideodata avc_config), timestamp = Num 0 \<rparr>])"
proof (intro conjI)
  from avc_session obtain m1 m2 where
    p1: "pushPacket 9 avc_config (Num 0) mux_avc = Inr m1"
    and w1: "waitForAdditionalData m1" and s1: "state m1 = 0"
    and p2: "pushPacket 9 avc_key (Num 33) m1 = Inr m2"
    by blast
  have w0: "waitForAdditionalData mux_avc" and s0: "state mux_avc = 0"
    and c0: "cachedPackets mux_avc = 0" and o0: "ondata mux_avc = []"
    and v0: "videoTrackId mux_avc = 0" and l0: "length (tracks mux_avc) = 1"
    and e0: "cache (tracks mux_avc ! 0) = []"
    by (simp_all add: mux_avc_def new_mux_def)
  have r: "run [PushPacket 9 avc_config (Num 0), PushPacket 9 avc_key (Num 33)] mux_avc = Inr m2"
    by (simp add: p1 p2)
  note t1 = deferred_header_trigger [where m = mux_avc and type = 9 and d = avc_config
      and pt = "Some 0" and tid = 0 and key = True and ts = "Num 0" and m' = m1
      and c = "\<lparr> packet = VideoP (parseVideodata avc_config), timestamp = Num 0 \<rparr>",
      OF w0 s0 _ p1]
  have a: "state m1 = 0" "ondata m1 = []"
    "tracks m1 = (tracks mux_avc)[0 := (tracks mux_avc ! 0)
         \<lparr> cache := cache (tracks mux_avc ! 0)
              @ [\<lparr> packet = VideoP (parseVideodata avc_config), timestamp = Num 0 \<rparr>] \<rparr>]"
    using t1 c0 o0 v0 s0 by (auto simp: avc_parse with_cached_def)
  from a(3) l0 e0
  have a3: "pending m1 = [\<lparr> packet = VideoP (parseVideodata avc_config), timestamp = Num 0 \<rparr>]"
    by (cases "tracks mux_avc") (simp_all add: pending_def)
  have "m1 = with_cached 0 \<lparr> packet = VideoP (parseVideodata avc_config), timestamp = Num 0 \<rparr>
               mux_avc"
    using t1 c0 v0 by (auto simp: avc_parse)
  then have v1: "videoTrackId m1 = 0" by (simp add: with_cached_def v0)
  have k2: "9 = (8::nat) \<and> a_codecId (parseAudiodata avc_key) = 10
        \<and> Some 1 = a_packetType (parseAudiodata avc_key) \<and> 0 = audioTrackId m1
        \<and> \<lparr> packet = VideoP (parseVideodata avc_key), timestamp = Num 33 \<rparr>
            = \<lparr> packet = AudioP (parseAudiodata avc_key), timestamp = Num 33 \<rparr> \<and> \<not> True
      \<or> 9 = (9::nat) \<and> v_codecId (parseVideodata avc_key) = 7
        \<and> Some 1 = v_packetType (parseVideodata avc_key) \<and> 0 = videoTrackId m1
        \<and> \<lparr> packet = VideoP (parseVideodata avc_key), timestamp = Num 33 \<rparr>
            = \<lparr> packet = VideoP (parseVideodata avc_key), timestamp = Num 33 \<rparr>
        \<and> True = (v_frameType (parseVideodata avc_key) = 1)"
    by (simp add: avc_parse v1)
  note t2 = deferred_header_trigger [OF w1 s1 k2 p2]
  have n: "Some (1::nat) \<noteq> Some 0" by simp
  note f2 = t2 [THEN conjunct2, THEN conjunct2, THEN conjunct1, rule_format, OF n]
  note o2 = t2 [THEN conjunct2, THEN conjunct2, THEN conjunct2, THEN conjunct2, rule_format,
      OF conjI [OF new_avc r]]
  from f2 obtain h where h0: "is_header h" "ondata m2 = ondata m1 @ [h]" by blast
  from f2 o2 have b: "state m2 = 1" "cachedPackets m2 = 1"
    "pending m2 = [\<lparr> packet = VideoP (parseVideodata avc_key), timestamp = Num 33 \<rparr>]"
    "length (headers m2) = 1"
    by simp_all
  from h0 a have h: "is_header h" "ondata m2 = [h]" by simp_all
  show "\<exists>m1 m2 h. waitForAdditionalData mux_avc \<and> state mux_avc = 0
      \<and> v_packetType (parseVideodata avc_config) = Some 0
      \<and> pushPacket 9 avc_config (Num 0) mux_avc = Inr m1
      \<and> state m1 = 0 \<and> ondata m1 = []
      \<and> pending m1 = [\<lparr> packet = VideoP (parseVideodata avc_config), timestamp = Num 0 \<rparr>]
      \<and> v_packetType (parseVideodata avc_key) \<noteq> Some 0
      \<and> pushPacket 9 avc_key (Num 33) m1 = Inr m2
      \<and> state m2 = 1 \<and> cachedPackets m2 = 1 \<and> ondata m2 = [h] \<and> is_header h
      \<and> pending m2 = [\<lparr> packet = VideoP (parseVideodata avc_key), timestamp = Num 33 \<rparr>]
      \<and> MP4Mux_new md_avc = Inr mux_avc
      \<and> run [PushPacket 9 avc_config (Num 0), PushPacket 9 avc_key (Num 33)] mux_avc = Inr m2
      \<and> length (headers m2) = 1"
    by (intro exI [of _ m1] exI [of _ m2] exI [of _ h])
      (simp add: p1 p2 w0 s0 a a3 b h new_avc avc_parse r)
next
  from av_config_session obtain a1 a2 where
    p1: "pushPacket 8 aac_config (Num 0) mux_av = Inr a1"
    and w1: "waitForAdditionalData a1" and s1: "state a1 = 0" and c1: "cachedPackets a1 = 1"
    and o1: "ondata a1 = []" and v1: "videoTrackId a1 = 0"
    and p2: "pushPacket 9 avc_config (Num 0) a1 = Inr a2"
    by blast
  note t = deferred_header_trigger [where m = a1 and type = 9 and d = avc_config
      and pt = "Some 0" and tid = 0 and key = True and ts = "Num 0" and m' = a2
      and c = "\<lparr> packet = VideoP (parseVideodata avc_config), timestamp = Num 0 \<rparr>",
      OF w1 s1 _ p2]
  from t c1 v1 obtain m1 where k: "chunk a1 = Inr m1"
    and e: "if 5 \<le> cachedPackets m1 + 1
            then chunk (with_cached 0 \<lparr> packet = VideoP (parseVideodata avc_config),
                                        timestamp = Num 0 \<rparr> m1) = Inr a2
            else a2 = with_cached 0 \<lparr> packet = VideoP (parseVideodata avc_config),
                                        timestamp = Num 0 \<rparr> m1"
    and s2: "state a2 = 0" and h2: "headers a2 = headers a1"
    and l: "nat 0 < length (tracks a1)"
    by (auto simp: avc_parse)
  note f = chunk_Inr_fields [OF k]
  from e f(2) have a2: "a2 = with_cached 0 \<lparr> packet = VideoP (parseVideodata avc_config),
                                        timestamp = Num 0 \<rparr> m1"
    by simp
  from chunk_Inr [OF k] o1 obtain c where c: "ondata m1 = [c]" "is_fragment c" by auto
  from l chunk_length_tracks [OF k] have "nat 0 < length (tracks m1)" by simp
  with f(1) have "pending a2 = [\<lparr> packet = VideoP (parseVideodata avc_config),
                                  timestamp = Num 0 \<rparr>]"
    unfolding a2 by (intro with_cached_pending) simp_all
  with s2 h2 o1 c show "\<exists>a1 a2 f. pushPacket 8 aac_config (Num 0) mux_av = Inr a1
      \<and> pushPacket 9 avc_config (Num 0) a1 = Inr a2
      \<and> state a2 = 0 \<and> headers a2 = [] \<and> ondata a2 = [f] \<and> is_fragment f
      \<and> pending a2 = [\<lparr> packet = VideoP (parseVideodata avc_config), timestamp = Num 0 \<rparr>]"
    by (intro exI [of _ a1] exI [of _ a2] exI [of _ c])
      (simp add: p1 p2 a2 with_cached_fields headers_def)
qed

text \<open>
  C2, as stated, fails: with one packet pending on an uninitialised deferred-path muxer, an
  AVC key frame of packet type 1 emits the header, which consumes the pending sample; no
  fragment is emitted.
\<close>

theorem keyframe_flush_counterexample:
  "v_frameType (parseVideodata avc_key) = 1 \<and> v_codecId (parseVideodata avc_key) = 7
   \<and> outcome cachedPackets (run [PushPacket 9 avc_config (Num 0)] mux_avc) = Inr 1
   \<and> outcome chunkIndex
        (run [PushPacket 9 avc_config (Num 0), PushPacket 9 avc_key (Num 33)] mux_avc) = Inr 0
   \<and> outcome fragments
        (run [PushPacket 9 avc_config (Num 0), PushPacket 9 avc_key (Num 33)] mux_avc) = Inr []"
proof -
  from avc_session obtain m1 m2 where
    "pushPacket 9 avc_config (Num 0) mux_avc = Inr m1" "cachedPackets m1 = 1"
    "pushPacket 9 avc_key (Num 33) m1 = Inr m2" "chunkIndex m2 = 0" "fragments m2 = []"
    by blast
  then show ?thesis by (simp add: outcome_def avc_parse)
qed

text \<open>
  The amended C2 on the AVC configuration: with a key frame and an inter frame pending
  after the header, the next key frame flushes them into a fragment.
\<close>

theorem keyframe_flush_witness:
  "\<exists>m m'. run [PushPacket 9 avc_config (Num 0), PushPacket 9 avc_key (Num 33),
                PushPacket 9 avc_inter (Num 66)] mux_avc = Inr m
      \<and> v_frameType (parseVideodata avc_key) = 1 \<and> v_codecId (parseVideodata avc_key) = 7
      \<and> cachedPackets m = 2 \<and> state m = 1
      \<and> pushPacket 9 avc_key (Num 100) m = Inr m'
      \<and> (\<exists>m1 moof mdat. chunk m = Inr m1 \<and> ondata m' = ondata m @ [moof @ mdat]
            \<and> is_fragment (moof @ mdat)
            \<and> tag ''mdat'' (U8 (sample_data (pending m))) = Inr mdat)
      \<and> chunkIndex m' = chunkIndex m + 1
      \<and> pending m' = [\<lparr> packet = VideoP (parseVideodata avc_key), timestamp = Num 100 \<rparr>]
      \<and> cachedPackets m' = 1"
proof -
  from avc_session obtain m1 m2 m3 m4 where
    p: "pushPacket 9 avc_config (Num 0) mux_avc = Inr m1"
      "pushPacket 9 avc_key (Num 33) m1 = Inr m2"
      "pushPacket 9 avc_inter (Num 66) m2 = Inr m3"
    and c: "state m3 = 1" "cachedPackets m3 = 2"
    and ok: "pushPacket 9 avc_key (Num 100) m3 = Inr m4"
    by blast
  have r: "run [PushPacket 9 avc_config (Num 0), PushPacket 9 avc_key (Num 33),
                PushPacket 9 avc_inter (Num 66)] mux_avc = Inr m3"
    by (simp add: p)
  have kf: "v_frameType (parseVideodata avc_key) = 1" by (simp add: avc_parse)
  have codec: "v_codecId (parseVideodata avc_key) = 4 \<or> v_codecId (parseVideodata avc_key) = 7"
    by (simp add: avc_parse)
  from keyframe_flush [OF kf codec ok] c
  have "\<exists>m1 moof mdat. chunk m3 = Inr m1
              \<and> ondata m4 = ondata m3 @ [moof @ mdat]
              \<and> is_fragment (moof @ mdat)
              \<and> fragment_sequence (moof @ mdat) = encodeInt32 (int (chunkIndex m3 + 1))
              \<and> tag ''mdat'' (U8 (sample_data (pending m3))) = Inr mdat
              \<and> chunkIndex m4 = chunkIndex m3 + 1
              \<and> pending m4 = [\<lparr> packet = VideoP (parseVideodata avc_key), timestamp = Num 100 \<rparr>]
              \<and> cachedPackets m4 = 1"
    by simp
  then show ?thesis using r c ok by (auto simp: avc_parse)
qed

text \<open>
  C7 on the AVC configuration: a run that emits two fragments, numbered 1 and 2.
\<close>

theorem fragment_sequence_numbers_witness:
  "MP4Mux_new md_avc = Inr mux_avc
   \<and> (\<exists>m. run [PushPacket 9 avc_config (Num 0), PushPacket 9 avc_key (Num 33),
               PushPacket 9 avc_inter (Num 66), PushPacket 9 avc_key (Num 100), Flush]
              mux_avc = Inr m
          \<and> chunkIndex m = 2
          \<and> map (\<lambda>c. be32 (fragment_sequence c)) (fragments m) = [1, 2])"
proof -
  from avc_session obtain m1 m2 m3 m4 m5 where
    p: "pushPacket 9 avc_config (Num 0) mux_avc = Inr m1"
      "pushPacket 9 avc_key (Num 33) m1 = Inr m2"
      "pushPacket 9 avc_inter (Num 66) m2 = Inr m3"
      "pushPacket 9 avc_key (Num 100) m3 = Inr m4"
      "flush m4 = Inr m5" and c: "chunkIndex m5 = 2"
    by blast
  have r: "run [PushPacket 9 avc_config (Num 0), PushPacket 9 avc_key (Num 33),
               PushPacket 9 avc_inter (Num 66), PushPacket 9 avc_key (Num 100), Flush]
              mux_avc = Inr m5"
    by (simp add: p)
  from fragment_sequence_numbers [OF new_avc r] c
  have "map (\<lambda>c. be32 (fragment_sequence c)) (fragments m5) = [1..<3]" by simp
  moreover have "[1..<3] = [1, 2::nat]" by (simp add: upt_rec)
  ultimately show ?thesis using new_avc r c by auto
qed



section \<open>Header generation without a cached configuration\<close>

lemma new_data_aac: "MP4Mux_new md_data_aac = Inr mux_data_aac"
  by (simp add: MP4Mux_new_def md_data_aac_def mux_data_aac_def new_track_def trackinfo_step_def)

lemma new_data_avc: "MP4Mux_new md_data_avc = Inr mux_data_avc"
  by (simp add: MP4Mux_new_def md_data_avc_def mux_data_avc_def new_track_def trackinfo_step_def)

lemma new_audio: "MP4Mux_new md_audio = Inr mux_audio"
  by (simp add: MP4Mux_new_def md_audio_def mux_audio_def new_track_def js_or_def)

lemma codecInfo_of_empty:
  assumes "ttype t = ''mp4a'' \<or> ttype t = ''avc1''" and "cache t = []"
  shows "codecInfo_of t = Inl TypeError"
  using assms by (auto simp: codecInfo_of_def)

lemma header_traks_append:
  "header_traks i (xs @ ys) =
     ebind (header_traks i xs) (\<lambda>a. ebind (header_traks (i + length xs) ys) (\<lambda>b. Inr (a @ b)))"
proof (induction xs arbitrary: i)
  case Nil
  show ?case by (cases "header_traks i ys") simp_all
next
  case (Cons x xs)
  show ?case
    by (simp add: Cons.IH ebind_def split: sum.splits prod.splits)
qed

lemma header_traks_Inr_ready:
  assumes "header_traks i ts = Inr traks" and "t \<in> set ts"
  shows "\<exists>ci a. codecInfo_of t = Inr (ci, a)"
  using assms
proof (induction ts arbitrary: i traks)
  case Nil
  then show ?case by simp
next
  case (Cons x xs)
  from Cons.prems(1) obtain ci a trak rest where
    c: "codecInfo_of x = Inr (ci, a)" and r: "header_traks (Suc i) xs = Inr rest"
    by (auto simp: ebind_eq_Inr)
  show ?case
  proof (cases "t = x")
    case True
    with c show ?thesis by blast
  next
    case False
    with Cons.prems(2) have "t \<in> set xs" by simp
    from Cons.IH [OF r this] show ?thesis .
  qed
qed

text \<open>
  C9, amended. Let \<open>t\<close> be an \<open>mp4a\<close> or \<open>avc1\<close> track whose cache is empty. Building its
  sample description dereferences \<open>cache[0]\<close> and fails with a \<open>TypeError\<close>, which is none of
  the specified error kinds; so header generation on a muxer that holds \<open>t\<close> always fails,
  and it fails with that \<open>TypeError\<close> whenever the tracks before \<open>t\<close> build (a track before
  it that is of an unsupported type, or is itself without its configuration, fails first
  with its own error). Header generation only succeeds when every \<open>mp4a\<close> and \<open>avc1\<close> track
  holds at least one cached sample. On the deferred path the failure is reached when a
  packet of type other than 0 triggers the header before the configuration sample of
  another AAC or AVC track has been cached.
\<close>

theorem header_needs_config:
  "((ttype t = ''mp4a'' \<or> ttype t = ''avc1'') \<and> cache t = [] \<longrightarrow>
      codecInfo_of t = Inl TypeError
      \<and> (t \<in> set (tracks m) \<longrightarrow> (\<exists>e. generateHeader m = Inl e))
      \<and> (\<forall>pre post traks. tracks m = pre @ t # post \<and> header_traks 0 pre = Inr traks \<longrightarrow>
            generateHeader m = Inl TypeError))
   \<and> (\<forall>m'. generateHeader m = Inr m' \<longrightarrow>
        (\<forall>u\<in>set (tracks m). ttype u = ''mp4a'' \<or> ttype u = ''avc1'' \<longrightarrow> cache u \<noteq> []))"
proof (intro conjI impI allI ballI)
  assume a: "(ttype t = ''mp4a'' \<or> ttype t = ''avc1'') \<and> cache t = []"
  then show e: "codecInfo_of t = Inl TypeError" by (simp add: codecInfo_of_empty)
  {
    assume "t \<in> set (tracks m)"
    show "\<exists>e. generateHeader m = Inl e"
    proof (cases "generateHeader m")
      case (Inl e)
      then show ?thesis by blast
    next
      case (Inr m')
      then obtain traks where "header_traks 0 (tracks m) = Inr traks"
        by (auto elim: generateHeaderE)
      from header_traks_Inr_ready [OF this \<open>t \<in> set (tracks m)\<close>] e show ?thesis by simp
    qed
  }
  {
    fix pre post traks
    assume "tracks m = pre @ t # post \<and> header_traks 0 pre = Inr traks"
    then show "generateHeader m = Inl TypeError"
      using e by (simp add: generateHeader_def header_traks_append)
  }
next
  fix m' u
  assume g: "generateHeader m = Inr m'" and u: "u \<in> set (tracks m)"
    and ty: "ttype u = ''mp4a'' \<or> ttype u = ''avc1''"
  from g obtain traks where "header_traks 0 (tracks m) = Inr traks"
    by (auto elim: generateHeaderE)
  from header_traks_Inr_ready [OF this u] ty show "cache u \<noteq> []"
    by (auto simp: codecInfo_of_empty)
qed

section \<open>Packets without a track\<close>

lemma cache_push_minus1 [simp]: "cache_push (- 1) c m = Inl TypeError"
  by (simp add: cache_push_def)

lemma pushAudio_no_track:
  assumes "audioTrackId m = - 1"
    and "a_codecId (parseAudiodata d) = 2 \<or> a_codecId (parseAudiodata d) = 10"
  shows "pushAudio d ts m = Inl TypeError
     \<or> (state m = 0 \<and> (\<exists>e. generateHeader m = Inl e \<and> pushAudio d ts m = Inl e))"
proof (cases "a_codecId (parseAudiodata d) = 10 \<and> a_packetType (parseAudiodata d) \<noteq> Some 0
      \<and> state m = 0")
  case True
  then have e: "pushAudio d ts m = ebind (generateHeader m) (\<lambda>m1.
     ebind (cache_push (audioTrackId m1) \<lparr> packet = AudioP (parseAudiodata d), timestamp = ts \<rparr> m1)
       (\<lambda>m2. Inr (m2 \<lparr> cachedPackets := cachedPackets m2 + 1 \<rparr>)))"
    by (intro pushAudio_header) auto
  show ?thesis
  proof (cases "generateHeader m")
    case (Inl e')
    with e True show ?thesis by simp
  next
    case (Inr m1)
    from generateHeader_Inr_fields(6) [OF Inr] assms(1) e Inr show ?thesis by simp
  qed
next
  case False
  with assms(2) have "pushAudio d ts m = ebind (cache_push (audioTrackId m)
        \<lparr> packet = AudioP (parseAudiodata d), timestamp = ts \<rparr> m)
       (\<lambda>m2. Inr (m2 \<lparr> cachedPackets := cachedPackets m2 + 1 \<rparr>))"
    by (intro pushAudio_plain) auto
  with assms(1) show ?thesis by simp
qed

lemma pushVideo_no_track:
  assumes "videoTrackId m = - 1"
    and "v_codecId (parseVideodata d) = 4 \<or> v_codecId (parseVideodata d) = 7"
  shows "pushVideo d ts m = Inl TypeError
     \<or> (\<exists>e. pushVideo d ts m = Inl e
           \<and> (state m = 0 \<and> generateHeader m = Inl e \<or> chunk m = Inl e))"
proof -
  let ?c = "\<lparr> packet = VideoP (parseVideodata d), timestamp = ts \<rparr>"
  let ?push = "\<lambda>m1. ebind (cache_push (videoTrackId m1) ?c m1)
       (\<lambda>m2. Inr (m2 \<lparr> cachedPackets := cachedPackets m2 + 1 \<rparr>))"
  show ?thesis
  proof (cases "v_codecId (parseVideodata d) = 7 \<and> v_packetType (parseVideodata d) \<noteq> Some 0
      \<and> state m = 0")
    case True
    then have e: "pushVideo d ts m = ebind (generateHeader m) ?push"
      by (intro pushVideo_header) auto
    show ?thesis
    proof (cases "generateHeader m")
      case (Inl e')
      with e True show ?thesis by simp
    next
      case (Inr m1)
      from generateHeader_Inr_fields(5) [OF Inr] assms(1) e Inr show ?thesis by simp
    qed
  next
    case False
    note nh = this
    show ?thesis
    proof (cases "v_frameType (parseVideodata d) = 1 \<and> cachedPackets m \<noteq> 0")
      case True
      with nh assms(2) have e: "pushVideo d ts m = ebind (chunk m) ?push"
        by (intro pushVideo_flush) auto
      show ?thesis
      proof (cases "chunk m")
        case (Inl e')
        with e show ?thesis by auto
      next
        case (Inr m1)
        from chunk_Inr_fields(5) [OF Inr] assms(1) e Inr show ?thesis by simp
      qed
    next
      case False
      with nh assms(2) have "pushVideo d ts m = ?push m"
        by (intro pushVideo_plain) auto
      with assms(1) show ?thesis by simp
    qed
  qed
qed


lemma pushPacket_audio_no_track:
  assumes "audioTrackId m = - 1"
    and "a_codecId (parseAudiodata d) = 2 \<or> a_codecId (parseAudiodata d) = 10"
  shows "pushPacket 8 d ts m = Inl TypeError
     \<or> (state m = 0 \<and> (\<exists>e. generateHeader m = Inl e \<and> pushPacket 8 d ts m = Inl e))"
proof (cases "state m = 0 \<and> \<not> waitForAdditionalData m")
  case True
  show ?thesis
  proof (cases "generateHeader m")
    case (Inl e)
    with True show ?thesis by (simp add: pushPacket_def pushPacket_cache_def)
  next
    case (Inr m0)
    note f = generateHeader_Inr_fields [OF Inr]
    from pushAudio_no_track [of m0 d ts] f assms have "pushAudio d ts m0 = Inl TypeError" by simp
    with True Inr show ?thesis
      by (simp add: pushPacket_def pushPacket_cache_def AUDIO_PACKET_def)
  qed
next
  case False
  then have "pushPacket_cache 8 d ts m = pushAudio d ts m"
    by (auto simp: pushPacket_cache_def AUDIO_PACKET_def)
  with pushAudio_no_track [OF assms, of ts] show ?thesis
    by (auto simp: pushPacket_def)
qed

lemma pushPacket_video_no_track:
  assumes "videoTrackId m = - 1"
    and "v_codecId (parseVideodata d) = 4 \<or> v_codecId (parseVideodata d) = 7"
  shows "pushPacket 9 d ts m = Inl TypeError
     \<or> (\<exists>e. pushPacket 9 d ts m = Inl e
           \<and> (state m = 0 \<and> generateHeader m = Inl e \<or> chunk m = Inl e))"
proof (cases "state m = 0 \<and> \<not> waitForAdditionalData m")
  case True
  show ?thesis
  proof (cases "generateHeader m")
    case (Inl e)
    with True show ?thesis by (simp add: pushPacket_def pushPacket_cache_def)
  next
    case (Inr m0)
    note f = generateHeader_Inr_fields [OF Inr]
    have "pushVideo d ts m0 = ebind (cache_push (videoTrackId m0)
        \<lparr> packet = VideoP (parseVideodata d), timestamp = ts \<rparr> m0)
       (\<lambda>m2. Inr (m2 \<lparr> cachedPackets := cachedPackets m2 + 1 \<rparr>))"
      using assms(2) f by (intro pushVideo_plain) auto
    with f assms(1) have "pushVideo d ts m0 = Inl TypeError" by simp
    with True Inr show ?thesis
      by (simp add: pushPacket_def pushPacket_cache_def AUDIO_PACKET_def VIDEO_PACKET_def)
  qed
next
  case False
  then have "pushPacket_cache 9 d ts m = pushVideo d ts m"
    by (auto simp: pushPacket_cache_def AUDIO_PACKET_def VIDEO_PACKET_def)
  with pushVideo_no_track [OF assms, of ts] show ?thesis
    by (auto simp: pushPacket_def)
qed

text \<open>
  C10, amended. On a muxer without an audio track (\<open>audioTrackId = -1\<close>) every \<open>pushPacket\<close>
  call with type 8 and audio codec id 2 or 10 fails. The failure is the \<open>TypeError\<close> of
  reading \<open>tracks[-1].cache\<close>, unless the call first emits the header (the muxer is
  uninitialised) and header generation itself fails, with its own error. Symmetrically, a
  video packet with codec id 4 or 7 pushed to a muxer without a video track fails with that
  \<open>TypeError\<close> unless the header emission or the key-frame flush the call performs first
  fails. On a muxer of a legacy configuration (tracks of type \<open>mp3\<close> and \<open>vp6f\<close> only), where
  these emissions succeed, the failure is always the \<open>TypeError\<close>.
\<close>

theorem push_without_track:
  "(audioTrackId m = - 1
      \<and> (a_codecId (parseAudiodata d) = 2 \<or> a_codecId (parseAudiodata d) = 10) \<longrightarrow>
      (\<exists>e. pushPacket 8 d ts m = Inl e)
      \<and> (pushPacket 8 d ts m = Inl TypeError
          \<or> state m = 0 \<and> (\<exists>e. generateHeader m = Inl e \<and> pushPacket 8 d ts m = Inl e))
      \<and> ((\<forall>t\<in>set (tracks m). ttype t = ''mp3'' \<or> ttype t = ''vp6f'')
            \<and> length (tracks m) \<le> 256 \<longrightarrow>
          pushPacket 8 d ts m = Inl TypeError))
   \<and> (videoTrackId m = - 1
      \<and> (v_codecId (parseVideodata d) = 4 \<or> v_codecId (parseVideodata d) = 7) \<longrightarrow>
      (\<exists>e. pushPacket 9 d ts m = Inl e)
      \<and> (pushPacket 9 d ts m = Inl TypeError
          \<or> (\<exists>e. pushPacket 9 d ts m = Inl e
                \<and> (state m = 0 \<and> generateHeader m = Inl e \<or> chunk m = Inl e)))
      \<and> ((\<forall>t\<in>set (tracks m). ttype t = ''mp3'' \<or> ttype t = ''vp6f'')
            \<and> length (tracks m) \<le> 256
            \<and> 8 * length (pending m) + length (sample_data (pending m)) \<le> 2 ^ 29 \<longrightarrow>
          pushPacket 9 d ts m = Inl TypeError))"
proof (intro conjI impI)
  assume a: "audioTrackId m = - 1
      \<and> (a_codecId (parseAudiodata d) = 2 \<or> a_codecId (parseAudiodata d) = 10)"
  then have r: "pushPacket 8 d ts m = Inl TypeError
     \<or> (state m = 0 \<and> (\<exists>e. generateHeader m = Inl e \<and> pushPacket 8 d ts m = Inl e))"
    by (intro pushPacket_audio_no_track) auto
  then show "\<exists>e. pushPacket 8 d ts m = Inl e" by blast
  from r show "pushPacket 8 d ts m = Inl TypeError
          \<or> state m = 0 \<and> (\<exists>e. generateHeader m = Inl e \<and> pushPacket 8 d ts m = Inl e)" .
  assume l: "(\<forall>t\<in>set (tracks m). ttype t = ''mp3'' \<or> ttype t = ''vp6f'')
      \<and> length (tracks m) \<le> 256"
  then have "\<forall>t\<in>set (tracks m). header_ready t" by (auto simp: header_ready_def)
  with l obtain m' where "generateHeader m = Inr m'" using generateHeader_succeeds by blast
  with r show "pushPacket 8 d ts m = Inl TypeError" by auto
next
  assume a: "videoTrackId m = - 1
      \<and> (v_codecId (parseVideodata d) = 4 \<or> v_codecId (parseVideodata d) = 7)"
  then have r: "pushPacket 9 d ts m = Inl TypeError
     \<or> (\<exists>e. pushPacket 9 d ts m = Inl e
           \<and> (state m = 0 \<and> generateHeader m = Inl e \<or> chunk m = Inl e))"
    by (intro pushPacket_video_no_track) auto
  then show "\<exists>e. pushPacket 9 d ts m = Inl e" by blast
  from r show "pushPacket 9 d ts m = Inl TypeError
     \<or> (\<exists>e. pushPacket 9 d ts m = Inl e
           \<and> (state m = 0 \<and> generateHeader m = Inl e \<or> chunk m = Inl e))" .
  assume l: "(\<forall>t\<in>set (tracks m). ttype t = ''mp3'' \<or> ttype t = ''vp6f'')
      \<and> length (tracks m) \<le> 256
      \<and> 8 * length (pending m) + length (sample_data (pending m)) \<le> 2 ^ 29"
  then have "\<forall>t\<in>set (tracks m). header_ready t" by (auto simp: header_ready_def)
  with l obtain m' where g: "generateHeader m = Inr m'" using generateHeader_succeeds by blast
  from l have "\<forall>t\<in>set (tracks m). cache t \<noteq> [] \<longrightarrow>
      ttype t = ''mp4a'' \<or> ttype t = ''mp3'' \<or> ttype t = ''avc1'' \<or> ttype t = ''vp6f''"
    by auto
  moreover from l have "76 * length (tracks m) + 8 * length (pending m)
                 + length (sample_data (pending m)) \<le> 2 ^ 30" by simp
  ultimately obtain m'' where "chunk m = Inr m''" using chunk_succeeds by blast
  with g r show "pushPacket 9 d ts m = Inl TypeError" by auto
qed

section \<open>Concrete runs without a configuration or a track\<close>

lemma mp3_parse: "a_codecId (parseAudiodata mp3_frame) = 2"
  by (simp add: mp3_frame_def parseAudiodata_def Let_def byte_num_def
      drop_bit_eq_div AAC_SOUND_CODEC_ID_def MP3_SOUND_CODEC_ID_def)

lemma data_aac_run:
  "ttype (tracks mux_data_aac ! 1) = ''mp4a''" "cache (tracks mux_data_aac ! 1) = []"
  "waitForAdditionalData mux_data_aac" "state mux_data_aac = 0"
  "generateHeader mux_data_aac = Inl NotSupportedTrackType"
  "pushPacket 8 aac_raw (Num 0) mux_data_aac = Inl NotSupportedTrackType"
  by (simp_all add: eval_defs mux_data_aac_def packet_defs)

lemma data_avc_run:
  "audioTrackId mux_data_avc = - 1"
  "pushPacket 8 aac_raw (Num 0) mux_data_avc = Inl NotSupportedTrackType"
  by (simp_all add: eval_defs mux_data_avc_def packet_defs)

lemma av_session:
  "\<exists>m1 tv ta traks. pushPacket 9 avc_config (Num 0) mux_av = Inr m1
      \<and> tracks m1 = [tv] @ ta # [] \<and> header_traks 0 [tv] = Inr traks
      \<and> ttype ta = ''mp4a'' \<and> cache ta = [] \<and> state m1 = 0 \<and> cachedPackets m1 = 1
      \<and> pushPacket 9 avc_key (Num 33) m1 = Inl TypeError"
  by (simp add: eval_defs mux_av_def packet_defs)

lemma avc_header:
  "\<exists>m2 m'. pushPacket 9 avc_config (Num 0) mux_avc = Inr m2 \<and> generateHeader m2 = Inr m'"
  by (simp add: eval_defs mux_avc_def packet_defs)

text \<open>
  C9, as stated, fails in two places. A header emission that finds an AAC track with an
  empty cache need not reach it: when a track before it has an unsupported type, header
  generation fails there, with the error of an unsupported track type. And the example of
  the claim does not arise: a configuration sample never triggers the header, so pushing
  the AVC sequence header while the AAC cache is empty just caches it.
\<close>

theorem empty_cache_counterexample:
  "ttype (tracks mux_data_aac ! 1) = ''mp4a'' \<and> cache (tracks mux_data_aac ! 1) = []
   \<and> waitForAdditionalData mux_data_aac \<and> state mux_data_aac = 0
   \<and> a_codecId (parseAudiodata aac_raw) = 10 \<and> a_packetType (parseAudiodata aac_raw) = Some 1
   \<and> generateHeader mux_data_aac = Inl NotSupportedTrackType
   \<and> pushPacket 8 aac_raw (Num 0) mux_data_aac = Inl NotSupportedTrackType
   \<and> outcome cachedPackets (pushPacket 9 avc_config (Num 0) mux_av) = Inr 1
   \<and> outcome ondata (pushPacket 9 avc_config (Num 0) mux_av) = Inr []"
proof -
  from av_session obtain m1 where "pushPacket 9 avc_config (Num 0) mux_av = Inr m1"
    "cachedPackets m1 = 1" by blast
  then have c: "outcome cachedPackets (pushPacket 9 avc_config (Num 0) mux_av) = Inr 1"
    by (simp add: outcome_def)
  show ?thesis by (intro conjI data_aac_run aac_parse av_config_pushes c)
qed

text \<open>
  The amended C9 on the configuration with an AVC and an AAC track: once the AVC sequence
  header is cached, the first AVC frame triggers the header while the AAC cache is still
  empty, and the call fails with a \<open>TypeError\<close>.
\<close>

theorem header_needs_config_witness:
  "(\<exists>m1 tv ta traks. pushPacket 9 avc_config (Num 0) mux_av = Inr m1
      \<and> ta \<in> set (tracks m1) \<and> tracks m1 = [tv] @ ta # []
      \<and> header_traks 0 [tv] = Inr traks
      \<and> ttype ta = ''mp4a'' \<and> cache ta = []
      \<and> codecInfo_of ta = Inl TypeError
      \<and> generateHeader m1 = Inl TypeError
      \<and> pushPacket 9 avc_key (Num 33) m1 = Inl TypeError)
   \<and> (\<exists>m2 m'. pushPacket 9 avc_config (Num 0) mux_avc = Inr m2
      \<and> generateHeader m2 = Inr m'
      \<and> (\<forall>u\<in>set (tracks m2). ttype u = ''mp4a'' \<or> ttype u = ''avc1'' \<longrightarrow> cache u \<noteq> []))"
proof -
  from avc_header obtain m2 m' where
    p2: "pushPacket 9 avc_config (Num 0) mux_avc = Inr m2" and g2: "generateHeader m2 = Inr m'"
    by blast
  from header_needs_config [where m = m2] g2
  have n2: "\<forall>u\<in>set (tracks m2). ttype u = ''mp4a'' \<or> ttype u = ''avc1'' \<longrightarrow> cache u \<noteq> []"
    by blast
  from av_session obtain m1 tv ta traks where
    p: "pushPacket 9 avc_config (Num 0) mux_av = Inr m1"
    and t: "tracks m1 = [tv] @ ta # []" and h: "header_traks 0 [tv] = Inr traks"
    and a: "ttype ta = ''mp4a''" "cache ta = []"
    and k: "pushPacket 9 avc_key (Num 33) m1 = Inl TypeError"
    by blast
  from header_needs_config [of ta m1] a t h
  have "codecInfo_of ta = Inl TypeError" "generateHeader m1 = Inl TypeError" by blast+
  moreover from t have "ta \<in> set (tracks m1)" by simp
  ultimately have "\<exists>m1 tv ta traks. pushPacket 9 avc_config (Num 0) mux_av = Inr m1
      \<and> ta \<in> set (tracks m1) \<and> tracks m1 = [tv] @ ta # []
      \<and> header_traks 0 [tv] = Inr traks
      \<and> ttype ta = ''mp4a'' \<and> cache ta = []
      \<and> codecInfo_of ta = Inl TypeError
      \<and> generateHeader m1 = Inl TypeError
      \<and> pushPacket 9 avc_key (Num 33) m1 = Inl TypeError"
    using p t h a k by blast
  with p2 g2 n2 show ?thesis by blast
qed

text \<open>
  C10, as stated, fails: on a deferred-path muxer without an audio track whose track list
  holds a track of an unsupported type, the first AAC frame triggers the header, and the
  call fails there with the error of an unsupported track type.
\<close>

theorem push_without_track_counterexample:
  "audioTrackId mux_data_avc = - 1 \<and> a_codecId (parseAudiodata aac_raw) = 10
   \<and> pushPacket 8 aac_raw (Num 0) mux_data_avc = Inl NotSupportedTrackType"
  by (simp add: data_avc_run aac_parse)

text \<open>
  The amended C10 on the legacy configurations: audio packets pushed to the video-only
  muxer and a video packet pushed to the audio-only muxer fail with a \<open>TypeError\<close>.
\<close>

theorem push_without_track_witness:
  "audioTrackId mux_video = - 1 \<and> a_codecId (parseAudiodata mp3_frame) = 2
   \<and> a_codecId (parseAudiodata aac_raw) = 10
   \<and> pushPacket 8 mp3_frame (Num 0) mux_video = Inl TypeError
   \<and> pushPacket 8 aac_raw (Num 0) mux_video = Inl TypeError
   \<and> videoTrackId mux_audio = - 1 \<and> v_codecId (parseVideodata vp6_inter) = 4
   \<and> pushPacket 9 vp6_inter (Num 0) mux_audio = Inl TypeError"
proof -
  have v: "audioTrackId mux_video = - 1"
    "(\<forall>t\<in>set (tracks mux_video). ttype t = ''mp3'' \<or> ttype t = ''vp6f'')
       \<and> length (tracks mux_video) \<le> 256"
    by (simp_all add: mux_video_def new_mux_def)
  have a: "videoTrackId mux_audio = - 1"
    "(\<forall>t\<in>set (tracks mux_audio). ttype t = ''mp3'' \<or> ttype t = ''vp6f'')
       \<and> length (tracks mux_audio) \<le> 256
       \<and> 8 * length (pending mux_audio) + length (sample_data (pending mux_audio)) \<le> 2 ^ 29"
    by (simp_all add: mux_audio_def new_mux_def pending_def sample_data_def)
  from push_without_track [of mux_video mp3_frame "Num 0"] v mp3_parse
  have 1: "pushPacket 8 mp3_frame (Num 0) mux_video = Inl TypeError" by blast
  from push_without_track [of mux_video aac_raw "Num 0"] v aac_parse
  have 2: "pushPacket 8 aac_raw (Num 0) mux_video = Inl TypeError" by blast
  from push_without_track [of mux_audio vp6_inter "Num 0"] a vp6_inter_parse
  have 3: "pushPacket 9 vp6_inter (Num 0) mux_audio = Inl TypeError" by blast
  show ?thesis using 1 2 3 v a by (simp add: mp3_parse aac_parse vp6_inter_parse)
qed

section \<open>The ceiling on the deferred-header path\<close>





section \<open>Durations in a fragment\<close>

text \<open>
  Evaluating the number model: bit lengths of numerals, and floors and ceilings of quotients
  of numerals.
\<close>

lemma bit_length_0: "bit_length 0 = 0"
  by (simp add: bit_length.simps)

lemma bit_length_1: "bit_length 1 = 1" "bit_length (Suc 0) = 1"
  by (simp_all add: bit_length.simps [of 1] bit_length.simps [of "Suc 0"] bit_length_0)

lemma bit_length_numeral: "bit_length (numeral n) = Suc (bit_length (numeral n div 2))"
  by (subst bit_length.simps) simp

lemma floor_rat_numeral: "\<lfloor>numeral a / numeral b :: rat\<rfloor> = numeral a div numeral b"
  using floor_divide_of_int_eq [of "numeral a" "numeral b", where ?'a = rat] by simp

lemma ceiling_rat_numeral:
  "\<lceil>numeral a / numeral b :: rat\<rceil> = - (- numeral a div numeral b)"
  using floor_divide_of_int_eq [of "- numeral a" "numeral b", where ?'a = rat]
  by (simp add: ceiling_def)

lemmas number_eval = bit_length_0 bit_length_1 bit_length_numeral
  floor_rat_numeral ceiling_rat_numeral

lemma floor_log2_aac_5500: "floor_log2 (256 / 1375) = - 3"
  by (simp add: floor_log2_def number_eval)

lemma floor_log2_aac_5500_scaled: "floor_log2 (4611686018427387625 / 4503599627370496) = 9"
  by (simp add: floor_log2_def number_eval)

lemma round_double_aac_5500: "round_double (256 / 1375) = Num (3353953467947191 / 2 ^ 54)"
  by (simp add: round_double_def Let_def floor_log2_aac_5500 pow2_def round_half_even_def number_eval)

lemma round_double_aac_5500_scaled: "round_double (4611686018427387625 / 4503599627370496) = Num (9007199254740991 / 2 ^ 43)"
  by (simp add: round_double_def Let_def floor_log2_aac_5500_scaled pow2_def round_half_even_def number_eval)

lemma aac_5500_duration: "ToInt32 (js_mul (js_div (Num 1024) (Num 5500)) (Num 5500)) = 1023"
  by (simp add: round_double_aac_5500 round_double_aac_5500_scaled wrap32_def number_eval)

text \<open>
  The boxes of a fragment: what the first loop of the fragment builder computes for a track
  with cached samples, and how the second loop frames it.
\<close>

lemma tag_box: "tag name d = Inr b \<Longrightarrow> b = box name (flatten d)"
  by (simp add: tag_eq_Inr box_def)

lemma chunk_track_content:
  assumes "chunk_track i t = Inr (tfdt, part, tdat, len)"
  shows "tfdt = box ''tfdt'' ([0, 0, 0, 0] @ encodeInt32 (cachedDuration t))"
    "ttype t = ''mp4a'' \<or> ttype t = ''mp3'' \<or> ttype t = ''avc1'' \<or> ttype t = ''vp6f''"
    "ttype t = ''mp4a'' \<or> ttype t = ''mp3'' \<Longrightarrow>
       trunTail part = [2, 0, 0, 0] @ audio_run_entries t"
proof -
  from assms obtain b where b: "tfdt_of t = Inr b"
    unfolding chunk_track_def by (auto simp: ebind_eq_Inr)
  with assms have tb: "tfdt = b"
    unfolding chunk_track_def by (auto simp: Let_def ebind_eq_Inr split: if_splits)
  from b show "tfdt = box ''tfdt'' ([0, 0, 0, 0] @ encodeInt32 (cachedDuration t))"
    unfolding tb tfdt_of_def by (auto dest!: tag_box)
  from assms b
  show "ttype t = ''mp4a'' \<or> ttype t = ''mp3'' \<or> ttype t = ''avc1'' \<or> ttype t = ''vp6f''"
    unfolding chunk_track_def by (auto split: if_splits)
  assume "ttype t = ''mp4a'' \<or> ttype t = ''mp3''"
  with assms b show "trunTail part = [2, 0, 0, 0] @ audio_run_entries t"
    unfolding chunk_track_def
    by (auto simp: Let_def ebind_eq_Inr flatten_pairs audio_run_entries_def)
qed

lemma chunk_tracks_parts:
  "chunk_tracks i ts = Inr (ts', parts, len) \<Longrightarrow>
     list_all2 (\<lambda>p t. \<exists>j l. chunk_track j t = Inr (fst p, fst (snd p), snd (snd p), l))
       parts (filter (\<lambda>t. cache t \<noteq> []) ts)"
proof (induction ts arbitrary: i ts' parts len)
  case Nil
  then show ?case by simp
next
  case (Cons t ts)
  show ?case
  proof (cases "cache t = []")
    case True
    with Cons.prems obtain r l where "chunk_tracks (Suc i) ts = Inr (r, parts, l)"
      by (auto simp: ebind_eq_Inr)
    from Cons.IH [OF this] True show ?thesis by simp
  next
    case False
    with Cons.prems obtain tfdt part tdat l1 r p l where
      c: "chunk_track i t = Inr (tfdt, part, tdat, l1)"
      and r: "chunk_tracks (Suc i) ts = Inr (r, p, l)"
      and e: "parts = (tfdt, part, tdat) # p"
      by (auto simp: ebind_eq_Inr)
    from Cons.IH [OF r] c False show ?thesis by (auto simp: e)
  qed
qed

lemma chunk_trafs_boxes:
  "chunk_trafs off parts = Inr trafs \<Longrightarrow>
     list_all2 (\<lambda>traf p. \<exists>k. traf = box ''traf'' (tfhd (fst (snd p)) @ fst p
          @ box ''trun'' (trunHead (fst (snd p)) @ encodeInt32 (int k) @ trunTail (fst (snd p)))))
       trafs parts"
proof (induction parts arbitrary: off trafs)
  case Nil
  then show ?case by simp
next
  case (Cons p ps)
  obtain tfdt part tdat where p: "p = (tfdt, part, tdat)" by (cases p) auto
  from Cons.prems obtain trun traf rest where
    t: "tag ''trun'' (A [U8 (trunHead part), U8 (encodeInt32 (int off)), U8 (trunTail part)])
          = Inr trun"
    and f: "tag ''traf'' (A [U8 (tfhd part), U8 tfdt, U8 trun]) = Inr traf"
    and r: "chunk_trafs (off + length tdat) ps = Inr rest"
    and e: "trafs = traf # rest"
    by (auto simp: p ebind_eq_Inr)
  from tag_box [OF t] tag_box [OF f]
  have "traf = box ''traf'' (tfhd part @ tfdt
          @ box ''trun'' (trunHead part @ encodeInt32 (int off) @ trunTail part))"
    by simp
  with Cons.IH [OF r] show ?case by (auto simp: e p)
qed

lemma list_all2_compose:
  assumes "list_all2 P xs ys" and "list_all2 Q ys zs"
  shows "list_all2 (\<lambda>x z. \<exists>y. P x y \<and> Q y z) xs zs"
  using assms
proof (induction xs ys arbitrary: zs rule: list_all2_induct)
  case Nil
  then show ?case by simp
next
  case (Cons x xs y ys)
  then show ?case by (cases zs) auto
qed

lemma chunk_content:
  assumes "chunk m = Inr m'"
  shows "\<exists>trafs mdat.
      ondata m' = ondata m
          @ [box ''moof'' (moofHeader_of (chunkIndex m + 1) @ concat trafs) @ mdat]
    \<and> list_all2 (\<lambda>traf t. \<exists>tfhd trunHead off trunTail.
          traf = box ''traf'' (tfhd
                   @ box ''tfdt'' ([0, 0, 0, 0] @ encodeInt32 (cachedDuration t))
                   @ box ''trun'' (trunHead @ encodeInt32 (int off) @ trunTail))
          \<and> (ttype t = ''mp4a'' \<or> ttype t = ''mp3''
               \<longrightarrow> trunTail = [2, 0, 0, 0] @ audio_run_entries t))
        trafs (contributing m)
    \<and> list_all2 (\<lambda>t' t.
          if cache t = [] then t' = t
          else cache t' = []
             \<and> cachedDuration t' = cachedDuration t
                 + (if ttype t = ''mp4a'' \<or> ttype t = ''mp3''
                    then (\<Sum>c\<leftarrow>cache t. audioFrameDuration t (packet c))
                    else int (length (cache t)) * videoFrameDuration t))
        (tracks m') (tracks m)"
proof -
  from assms obtain tracks' parts len trafs moof mdat where
    t: "chunk_tracks 0 (tracks m) = Inr (tracks', parts, len)"
    and f: "chunk_trafs (8 + length (moofHeader_of (chunkIndex m + 1)) + 8 + len) parts
              = Inr trafs"
    and moof: "tag ''moof'' (A (U8 (moofHeader_of (chunkIndex m + 1)) # map U8 trafs)) = Inr moof"
    and m': "m' = m \<lparr> chunkIndex := chunkIndex m + 1, tracks := tracks',
               ondata := ondata m @ [moof @ mdat],
               filePos := filePos m + length (moof @ mdat), cachedPackets := 0 \<rparr>"
    by (rule chunkE)
  from tag_box [OF moof]
  have "moof = box ''moof'' (moofHeader_of (chunkIndex m + 1) @ concat trafs)" by simp
  then have 1: "ondata m' = ondata m
          @ [box ''moof'' (moofHeader_of (chunkIndex m + 1) @ concat trafs) @ mdat]"
    by (simp add: m')
  from list_all2_compose [OF chunk_trafs_boxes [OF f] chunk_tracks_parts [OF t]]
  have 2: "list_all2 (\<lambda>traf t. \<exists>tfhd trunHead off trunTail.
          traf = box ''traf'' (tfhd
                   @ box ''tfdt'' ([0, 0, 0, 0] @ encodeInt32 (cachedDuration t))
                   @ box ''trun'' (trunHead @ encodeInt32 (int off) @ trunTail))
          \<and> (ttype t = ''mp4a'' \<or> ttype t = ''mp3''
               \<longrightarrow> trunTail = [2, 0, 0, 0] @ audio_run_entries t))
        trafs (contributing m)"
    unfolding contributing_def
  proof (rule list_all2_mono)
    fix traf t
    assume "\<exists>p. (\<exists>k. traf = box ''traf'' (tfhd (fst (snd p)) @ fst p
          @ box ''trun'' (trunHead (fst (snd p)) @ encodeInt32 (int k) @ trunTail (fst (snd p)))))
       \<and> (\<exists>j l. chunk_track j t = Inr (fst p, fst (snd p), snd (snd p), l))"
    then obtain tfdt part tdat k j l where
      tr: "traf = box ''traf'' (tfhd part @ tfdt
          @ box ''trun'' (trunHead part @ encodeInt32 (int k) @ trunTail part))"
      and c: "chunk_track j t = Inr (tfdt, part, tdat, l)"
      by auto
    from chunk_track_content(1) [OF c] chunk_track_content(3) [OF c] tr
    show "\<exists>tfhd trunHead off trunTail.
          traf = box ''traf'' (tfhd
                   @ box ''tfdt'' ([0, 0, 0, 0] @ encodeInt32 (cachedDuration t))
                   @ box ''trun'' (trunHead @ encodeInt32 (int off) @ trunTail))
          \<and> (ttype t = ''mp4a'' \<or> ttype t = ''mp3''
               \<longrightarrow> trunTail = [2, 0, 0, 0] @ audio_run_entries t)"
      by blast
  qed
  from chunk_tracks_Inr [OF t] have "tracks m' = map emit_track (tracks m)"
    by (simp add: m')
  then have 3: "list_all2 (\<lambda>t' t.
          if cache t = [] then t' = t
          else cache t' = []
             \<and> cachedDuration t' = cachedDuration t
                 + (if ttype t = ''mp4a'' \<or> ttype t = ''mp3''
                    then (\<Sum>c\<leftarrow>cache t. audioFrameDuration t (packet c))
                    else int (length (cache t)) * videoFrameDuration t))
        (tracks m') (tracks m)"
    by (simp add: list_all2_map1 list_all2_same emit_track_def totalDuration_def)
  from 1 2 3 show ?thesis by blast
qed

text \<open>
  C4, amended. Let the fragment builder return. The fragment it gives to the sink is a
  \<open>moof\<close> box followed by the sample data, and the \<open>moof\<close> box holds, after its header, one
  track fragment box for every track with cached samples, in track order. In the track
  fragment of such a track the \<open>tfdt\<close> box carries four zero bytes and the 32-bit big-endian
  encoding of the track's \<open>cachedDuration\<close> as it is before the call, whatever the timestamps
  of the cached samples; for an audio track the sample run ends with the first-sample flags
  and one (duration, size) entry for every cached sample, where the duration is
  \<open>(samples / samplerate * timescale) | 0\<close>: the quotient and the product are each rounded to
  a binary64 number and the result is truncated to a 32-bit integer. After the call a track
  without cached samples is as before, and a track with cached samples has an empty cache
  and its \<open>cachedDuration\<close> increased by the sum of those durations for an audio track, and
  by the number of cached samples times \<open>(timescale / framerate) | 0\<close> for a video track.
\<close>

theorem fragment_durations:
  assumes "chunk m = Inr m'"
  shows "\<exists>trafs mdat.
      ondata m' = ondata m
          @ [box ''moof'' (moofHeader_of (chunkIndex m + 1) @ concat trafs) @ mdat]
    \<and> list_all2 (\<lambda>traf t. \<exists>tfhd trunHead off trunTail.
          traf = box ''traf'' (tfhd
                   @ box ''tfdt'' ([0, 0, 0, 0] @ encodeInt32 (cachedDuration t))
                   @ box ''trun'' (trunHead @ encodeInt32 (int off) @ trunTail))
          \<and> (ttype t = ''mp4a'' \<or> ttype t = ''mp3''
               \<longrightarrow> trunTail = [2, 0, 0, 0] @ concat (map (\<lambda>c.
                     encodeInt32 (ToInt32 (js_mul (js_div (packet_samples (packet c))
                                                     (samplerate t)) (timescale t)))
                     @ encodeInt32 (int (length (packet_data (packet c))))) (cache t))))
        trafs (contributing m)
    \<and> list_all2 (\<lambda>t' t.
          if cache t = [] then t' = t
          else t' = t \<lparr> cachedDuration := cachedDuration t
                 + (if ttype t = ''mp4a'' \<or> ttype t = ''mp3''
                    then (\<Sum>c\<leftarrow>cache t. ToInt32 (js_mul (js_div (packet_samples (packet c))
                                                            (samplerate t)) (timescale t)))
                    else int (length (cache t)) * ToInt32 (js_div (timescale t) (framerate t))),
               cache := [] \<rparr>)
        (tracks m') (tracks m)"
proof -
  from chunk_content [OF assms] obtain trafs mdat where
    1: "ondata m' = ondata m
          @ [box ''moof'' (moofHeader_of (chunkIndex m + 1) @ concat trafs) @ mdat]"
    and 2: "list_all2 (\<lambda>traf t. \<exists>tfhd trunHead off trunTail.
          traf = box ''traf'' (tfhd
                   @ box ''tfdt'' ([0, 0, 0, 0] @ encodeInt32 (cachedDuration t))
                   @ box ''trun'' (trunHead @ encodeInt32 (int off) @ trunTail))
          \<and> (ttype t = ''mp4a'' \<or> ttype t = ''mp3''
               \<longrightarrow> trunTail = [2, 0, 0, 0] @ audio_run_entries t))
        trafs (contributing m)"
    by blast
  from chunk_Inr [OF assms] have "tracks m' = map emit_track (tracks m)" by auto
  then have 3: "list_all2 (\<lambda>t' t.
          if cache t = [] then t' = t
          else t' = t \<lparr> cachedDuration := cachedDuration t
                 + (if ttype t = ''mp4a'' \<or> ttype t = ''mp3''
                    then (\<Sum>c\<leftarrow>cache t. ToInt32 (js_mul (js_div (packet_samples (packet c))
                                                            (samplerate t)) (timescale t)))
                    else int (length (cache t)) * ToInt32 (js_div (timescale t) (framerate t))),
               cache := [] \<rparr>)
        (tracks m') (tracks m)"
    by (simp add: list_all2_map1 list_all2_same emit_track_def totalDuration_def
        audioFrameDuration_def videoFrameDuration_def)
  from 1 2 [unfolded audio_run_entries_def audioFrameDuration_def] 3 show ?thesis by blast
qed

text \<open>
  An AAC track at 5500 Hz whose timescale is the sample rate: one frame of 1024 samples.
\<close>

lemma new_aac_5500: "MP4Mux_new md_aac_5500 = Inr mux_aac_5500"
  by (simp add: MP4Mux_new_def md_aac_5500_def mux_aac_5500_def aac_5500_track_def
      new_track_def trackinfo_step_def)

lemma aac_5500_pending:
  "\<exists>m. run [PushPacket 8 aac_config (Num 0), PushPacket 8 aac_raw (Num 23)] mux_aac_5500 = Inr m
     \<and> cachedPackets m = 1 \<and> chunkIndex m = 0 \<and> length (ondata m) = 1
     \<and> tracks m = [aac_5500_track \<lparr> cache := [\<lparr> packet = AudioP (parseAudiodata aac_raw),
                                                 timestamp = Num 23 \<rparr>] \<rparr>]
     \<and> (\<exists>m'. chunk m = Inr m')"
  by (simp add: eval_defs mux_aac_5500_def aac_5500_track_def packet_defs)

lemma aac_raw_count: "a_samples (parseAudiodata aac_raw) = Some 1024"
  by (simp add: aac_raw_def parseAudiodata_def Let_def byte_num_def byte_at_def
      drop_bit_eq_div AAC_SOUND_CODEC_ID_def MP3_SOUND_CODEC_ID_def)

lemma aac_5500_frame:
  assumes "samplerate t = Num 5500" and "timescale t = Num 5500"
  shows "audioFrameDuration t (AudioP (parseAudiodata aac_raw)) = 1023"
  by (simp add: audioFrameDuration_def assms aac_raw_count round_double_aac_5500
      round_double_aac_5500_scaled wrap32_def number_eval)

lemma aac_5500_fields:
  "ttype aac_5500_track = ''mp4a''" "cachedDuration aac_5500_track = 0"
  "samplerate aac_5500_track = Num 5500" "timescale aac_5500_track = Num 5500"
  by (simp_all add: aac_5500_track_def)

lemma aac_raw_size: "length (a_data (parseAudiodata aac_raw)) = 2"
  by (simp add: aac_raw_def parseAudiodata_def Let_def byte_num_def byte_at_def
      drop_bit_eq_div AAC_SOUND_CODEC_ID_def MP3_SOUND_CODEC_ID_def)

lemma encodeInt32_1023: "encodeInt32 1023 = [0, 0, 3, 255]" "encodeInt32 1024 = [0, 0, 4, 0]"
  "encodeInt32 2 = [0, 0, 0, 2]" "encodeInt32 0 = [0, 0, 0, 0]"
  by (simp_all add: encodeInt32_def)


text \<open>
  C4, as stated, fails: on the AAC track at 5500 Hz with timescale 5500 the run-entry
  duration of a frame of 1024 samples is 1023, and the emission adds 1023 to the cumulative
  duration, while the floor of \<open>1024 / 5500 * 5500\<close> is 1024. The quotient \<open>1024 / 5500\<close> is
  rounded down to a binary64 number, and its product with 5500 rounds to the binary64
  number just below 1024.
\<close>

theorem exact_floor_counterexample:
  "MP4Mux_new md_aac_5500 = Inr mux_aac_5500
   \<and> outcome (map audio_run_entries \<circ> tracks)
       (run [PushPacket 8 aac_config (Num 0), PushPacket 8 aac_raw (Num 23)] mux_aac_5500)
     = Inr [[0, 0, 3, 255, 0, 0, 0, 2]]
   \<and> outcome (map cachedDuration \<circ> tracks)
       (run [PushPacket 8 aac_config (Num 0), PushPacket 8 aac_raw (Num 23), Flush] mux_aac_5500)
     = Inr [1023]
   \<and> encodeInt32 \<lfloor>(1024 :: rat) / 5500 * 5500\<rfloor> = [0, 0, 4, 0]"
proof -
  from aac_5500_pending obtain m m' where
    r: "run [PushPacket 8 aac_config (Num 0), PushPacket 8 aac_raw (Num 23)] mux_aac_5500 = Inr m"
    and p: "cachedPackets m = 1"
    and t: "tracks m = [aac_5500_track \<lparr> cache := [\<lparr> packet = AudioP (parseAudiodata aac_raw),
                                                 timestamp = Num 23 \<rparr>] \<rparr>]"
    and c: "chunk m = Inr m'"
    by blast
  have a: "map audio_run_entries (tracks m) = [[0, 0, 3, 255, 0, 0, 0, 2]]"
    by (simp add: t audio_run_entries_def aac_5500_frame aac_raw_size encodeInt32_1023
        aac_5500_fields)
  from chunk_Inr [OF c] have "tracks m' = map emit_track (tracks m)" by auto
  then have d: "map cachedDuration (tracks m') = [1023]"
    by (simp add: t emit_track_def totalDuration_def aac_5500_frame aac_5500_fields)
  have "run [PushPacket 8 aac_config (Num 0), PushPacket 8 aac_raw (Num 23), Flush] mux_aac_5500
          = Inr m'"
    using run_append [of "[PushPacket 8 aac_config (Num 0), PushPacket 8 aac_raw (Num 23)]"
        "[Flush]" mux_aac_5500] r p c
    by (simp add: flush_def)
  with r a d show ?thesis by (simp add: outcome_def encodeInt32_1023 new_aac_5500)
qed


text \<open>
  The amended C4 on that track: the fragment that follows the configuration sample and one
  frame.
\<close>

theorem fragment_durations_witness:
  "\<exists>m m' h tfhd trunHead off mdat.
     run [PushPacket 8 aac_config (Num 0), PushPacket 8 aac_raw (Num 23)] mux_aac_5500 = Inr m
     \<and> chunk m = Inr m' \<and> length (contributing m) = 1
     \<and> map cachedDuration (tracks m) = [0] \<and> map cachedDuration (tracks m') = [1023]
     \<and> ondata m' = [h, box ''moof'' (moofHeader_of 1
           @ box ''traf'' (tfhd @ box ''tfdt'' [0, 0, 0, 0, 0, 0, 0, 0]
               @ box ''trun'' (trunHead @ encodeInt32 (int off)
                   @ [2, 0, 0, 0, 0, 0, 3, 255, 0, 0, 0, 2]))) @ mdat]"
proof -
  from aac_5500_pending obtain m m' where
    r: "run [PushPacket 8 aac_config (Num 0), PushPacket 8 aac_raw (Num 23)] mux_aac_5500 = Inr m"
    and i: "chunkIndex m = 0" and o: "length (ondata m) = 1"
    and t: "tracks m = [aac_5500_track \<lparr> cache := [\<lparr> packet = AudioP (parseAudiodata aac_raw),
                                                 timestamp = Num 23 \<rparr>] \<rparr>]"
    and c: "chunk m = Inr m'"
    by blast
  from o obtain h where h: "ondata m = [h]" by (cases "ondata m") auto
  have k: "contributing m = tracks m" by (simp add: contributing_def t)
  have e: "audio_run_entries (aac_5500_track \<lparr> cache := [\<lparr> packet = AudioP (parseAudiodata aac_raw),
                                                 timestamp = Num 23 \<rparr>] \<rparr>)
             = [0, 0, 3, 255, 0, 0, 0, 2]"
    by (simp add: audio_run_entries_def aac_5500_frame aac_raw_size encodeInt32_1023
        aac_5500_fields)
  from fragment_durations [OF c, folded audioFrameDuration_def videoFrameDuration_def,
      folded audio_run_entries_def]
  obtain trafs mdat where
    1: "ondata m' = ondata m
          @ [box ''moof'' (moofHeader_of (chunkIndex m + 1) @ concat trafs) @ mdat]"
    and 2: "list_all2 (\<lambda>traf t. \<exists>tfhd trunHead off trunTail.
          traf = box ''traf'' (tfhd
                   @ box ''tfdt'' ([0, 0, 0, 0] @ encodeInt32 (cachedDuration t))
                   @ box ''trun'' (trunHead @ encodeInt32 (int off) @ trunTail))
          \<and> (ttype t = ''mp4a'' \<or> ttype t = ''mp3''
               \<longrightarrow> trunTail = [2, 0, 0, 0] @ audio_run_entries t))
        trafs (contributing m)"
    and 3: "list_all2 (\<lambda>t' t.
          if cache t = [] then t' = t
          else t' = t \<lparr> cachedDuration := cachedDuration t
                 + (if ttype t = ''mp4a'' \<or> ttype t = ''mp3''
                    then (\<Sum>c\<leftarrow>cache t. audioFrameDuration t (packet c))
                    else int (length (cache t)) * videoFrameDuration t),
               cache := [] \<rparr>)
        (tracks m') (tracks m)"
    by blast
  from 2 obtain tfhd trunHead off where
    "trafs = [box ''traf'' (tfhd @ box ''tfdt'' [0, 0, 0, 0, 0, 0, 0, 0]
               @ box ''trun'' (trunHead @ encodeInt32 (int off)
                   @ [2, 0, 0, 0, 0, 0, 3, 255, 0, 0, 0, 2]))]"
    unfolding k t
    by (auto simp: list_all2_Cons2 e encodeInt32_1023 aac_5500_fields)
  with 1 have f: "ondata m' = [h, box ''moof'' (moofHeader_of 1
           @ box ''traf'' (tfhd @ box ''tfdt'' [0, 0, 0, 0, 0, 0, 0, 0]
               @ box ''trun'' (trunHead @ encodeInt32 (int off)
                   @ [2, 0, 0, 0, 0, 0, 3, 255, 0, 0, 0, 2]))) @ mdat]"
    by (simp add: h i)
  from 3 have d: "map cachedDuration (tracks m') = [1023]"
    unfolding t
    by (auto simp: list_all2_Cons2 aac_5500_frame aac_5500_fields)
  have z: "map cachedDuration (tracks m) = [0]" by (simp add: t aac_5500_fields)
  from r c k t z d f show ?thesis by fastforce
qed

end
